theory Spec2Isabelle
  imports Complex_Main
begin

section \<open>Exceptions and results\<close>

text \<open>
  The Python exceptions that the modelled part of \<^verbatim>\<open>runtime/run.py\<close> can raise. A
  function that can raise returns a sum: \<open>Inl (e, s)\<close> is the exception \<open>e\<close> together
  with the state reached when it was raised, \<open>Inr s\<close> is a normal return.
\<close>

datatype error =
    NameError
  | FileNotFoundError
  | OSError
  | ZeroDivisionError
  | IndexError
  | InvalidArgumentError
  | ShapeError

section \<open>Tensors and \<^verbatim>\<open>tf.image.rgb_to_grayscale\<close>\<close>

text \<open>
  A tensor is its shape and an identifier of the batch it was read from; the voxel
  values are not modelled. \<^verbatim>\<open>tf.image.rgb_to_grayscale\<close> needs a last dimension of
  size 3 and returns a tensor of the same rank whose last dimension has size 1; on a
  tensor of rank 0 it raises \<^verbatim>\<open>IndexError\<close>.
\<close>

record tensor =
  dims :: "nat list"
  ident :: nat

definition rgb_to_grayscale :: "tensor \<Rightarrow> error + tensor" where
  "rgb_to_grayscale t =
     (if dims t = [] then Inl IndexError
      else if last (dims t) = 3 then Inr (t\<lparr>dims := butlast (dims t) @ [1]\<rparr>)
      else Inl InvalidArgumentError)"

definition channels :: "tensor \<Rightarrow> nat" where
  "channels t = (if dims t = [] then 0 else last (dims t))"

type_synonym batch = "tensor \<times> tensor"

section \<open>\<^verbatim>\<open>tf.keras.metrics.Mean\<close>\<close>

text \<open>
  The running mean of Keras: two float32 variables, a sum and a count, both zero when
  the metric is created. A float32 value is taken as the real number it denotes; NaN
  and the infinities are not represented.
\<close>

record mean_metric =
  total :: real
  count :: real

definition Mean :: mean_metric where
  "Mean = \<lparr>total = 0, count = 0\<rparr>"

section \<open>Paths and saved models\<close>

type_synonym path = string

definition path_join :: "path \<Rightarrow> path \<Rightarrow> path" where
  \<comment> \<open>\<^verbatim>\<open>os.path.join\<close> of two components on POSIX\<close>
  "path_join a b =
     (if b \<noteq> [] \<and> hd b = CHR ''/'' then b
      else if a = [] \<or> last a = CHR ''/'' then a @ b
      else a @ ''/'' @ b)"

function str_nat :: "nat \<Rightarrow> string" where
  \<comment> \<open>the decimal digits that \<^verbatim>\<open>'{}'.format(fold)\<close> prints\<close>
  "str_nat n =
     (if n < 10 then [char_of (48 + n)]
      else str_nat (n div 10) @ [char_of (48 + n mod 10)])"
  by pat_completeness auto
termination
  by (relation "measure id") auto

declare str_nat.simps [simp del]

type_synonym 'm store = "path \<rightharpoonup> 'm"

section \<open>CheckpointManager\<close>

text \<open>
  \<^verbatim>\<open>runtime/checkpoints.py\<close> is not among the sources; \<^verbatim>\<open>run.py\<close> constructs
  \<^verbatim>\<open>Checkpoints(best_model_path, last_model_path, best_val_loss)\<close> with
  \<^verbatim>\<open>best_val_loss = np.Inf\<close> and calls \<^verbatim>\<open>update\<close> and \<^verbatim>\<open>save_last_model\<close>. The
  best loss is \<open>None\<close> for \<^verbatim>\<open>np.Inf\<close>.
\<close>

record checkpoints =
  best_path :: path
  last_path :: path
  best_loss :: "real option"

definition Checkpoints :: "path \<Rightarrow> path \<Rightarrow> real option \<Rightarrow> checkpoints" where
  "Checkpoints bp lp bl = \<lparr>best_path = bp, last_path = lp, best_loss = bl\<rparr>"

definition loss_lt :: "real \<Rightarrow> real option \<Rightarrow> bool" where
  \<comment> \<open>strict less-than against a loss that may be +infinity\<close>
  "loss_lt x b = (case b of None \<Rightarrow> True | Some y \<Rightarrow> x < y)"

text \<open>
  Modelled from the spec: \<^verbatim>\<open>Checkpoints.update\<close>, whose body is missing from the
  sources. Section 4.4: it always persists a snapshot at \<open>last_path\<close>, overwriting any
  prior content; if \<open>current_val_loss < best_loss\<close> it persists the same snapshot at
  \<open>best_path\<close> and sets \<open>best_loss = current_val_loss\<close>.
\<close>

definition Checkpoints_update ::
  "checkpoints \<Rightarrow> 'm store \<Rightarrow> 'm \<Rightarrow> real \<Rightarrow> checkpoints \<times> 'm store" where
  "Checkpoints_update ck fs m current_val_loss =
     (let fs1 = fs(last_path ck \<mapsto> m)
      in if loss_lt current_val_loss (best_loss ck)
         then (ck\<lparr>best_loss := Some current_val_loss\<rparr>, fs1(best_path ck \<mapsto> m))
         else (ck, fs1))"

text \<open>
  Modelled from the spec: \<^verbatim>\<open>Checkpoints.save_last_model(model, path)\<close>, whose body is
  missing from the sources. Section 3 describes the \<open>last\<close> slot as the most recent
  model state regardless of loss: the call persists the model at the path it is given.
\<close>

definition save_last_model :: "'m store \<Rightarrow> 'm \<Rightarrow> path \<Rightarrow> 'm store" where
  "save_last_model fs m p = fs(p \<mapsto> m)"

section \<open>Events\<close>

text \<open>
  The calls that the orchestration makes on its collaborators, in the order it makes
  them. The first argument of an event of a fold is the fold's number.
\<close>

datatype 'm event =
    TrainStep nat nat tensor tensor
  | ValStep nat tensor tensor
  | CheckpointUpdate nat 'm real
  | LogsUpdate nat int
  | OnEpochEnd nat real
  | SaveLastModel nat path
  | LoadModel path 'm
  | OnKFoldEnd nat
  | OnTrainingEnd

section \<open>Collaborators\<close>

text \<open>
  The functions of the repository and of TensorFlow that \<^verbatim>\<open>run.py\<close> calls and whose
  sources are not given: they are parameters of the model. A value of type \<open>'m\<close> is a
  model together with its optimizer.
  \<^item> \<open>get_model n\<close>: \<^verbatim>\<open>get_optimizer\<close> and \<^verbatim>\<open>get_model\<close> for \<open>n\<close> input channels;
    section 1 of the spec takes the construction of the network as a function of its
    shape, depth and channel parameters;
  \<^item> \<open>train_fn\<close>: the forward pass, the loss and \<^verbatim>\<open>apply_gradients\<close> of one
    \<^verbatim>\<open>train_step\<close>: the updated model and the unscaled loss;
  \<^item> \<open>val_fn\<close>: \<^verbatim>\<open>dice_loss(mask, sliding_window_inference(image, model))\<close>;
  \<^item> \<open>lr_fn\<close>: \<^verbatim>\<open>optimizer.learning_rate.numpy()\<close>;
  \<^item> \<open>fadd\<close> and \<open>div_no_nan\<close>: the float32 addition and the float32 division
    \<^verbatim>\<open>div_no_nan\<close> with which \<^verbatim>\<open>tf.keras.metrics.Mean\<close> computes, whatever their
    rounding;
  \<^item> \<open>update_train_bar\<close>, \<open>update_val_bar\<close> and \<open>pb_reset\<close>: what
    \<^verbatim>\<open>progress_bar.update_train_bar()\<close>, \<^verbatim>\<open>progress_bar.update_val_bar()\<close> and
    \<^verbatim>\<open>progress_bar.reset()\<close> do to the training-loss and the validation-loss
    accumulator, with which the progress bar is constructed on line 277;
  \<^item> \<open>logs_update\<close>: what \<^verbatim>\<open>logs.update(current_epoch)\<close> does to the two accumulators,
    with which the logger is constructed on line 280.
\<close>

type_synonym accumulators = "mean_metric \<times> mean_metric"

record 'm collab =
  get_model :: "nat \<Rightarrow> 'm"
  train_fn :: "'m \<Rightarrow> tensor \<Rightarrow> tensor \<Rightarrow> 'm \<times> real"
  val_fn :: "'m \<Rightarrow> tensor \<Rightarrow> tensor \<Rightarrow> real"
  lr_fn :: "'m \<Rightarrow> real"
  fadd :: "real \<Rightarrow> real \<Rightarrow> real"
  div_no_nan :: "real \<Rightarrow> real \<Rightarrow> real"
  update_train_bar :: "accumulators \<Rightarrow> accumulators"
  update_val_bar :: "accumulators \<Rightarrow> accumulators"
  logs_update :: "accumulators \<Rightarrow> accumulators"
  pb_reset :: "accumulators \<Rightarrow> accumulators"

text \<open>
  \<^verbatim>\<open>Mean.update_state\<close> adds the value to the sum and 1 to the count;
  \<^verbatim>\<open>Mean.result\<close> is \<^verbatim>\<open>div_no_nan(total, count)\<close>.
\<close>

definition update_state :: "'m collab \<Rightarrow> mean_metric \<Rightarrow> real \<Rightarrow> mean_metric" where
  "update_state c m x = \<lparr>total = fadd c (total m) x, count = fadd c (count m) 1\<rparr>"

definition result :: "'m collab \<Rightarrow> mean_metric \<Rightarrow> real" where
  "result c m = div_no_nan c (total m) (count m)"

section \<open>The training loop of one fold\<close>

text \<open>
  The local variables of one iteration of the fold loop of \<^verbatim>\<open>RunTime.train\<close>, the
  saved models on disk, and the events of the fold so far.
\<close>

record 'm fold_state =
  model :: 'm
  train_loss :: mean_metric
  val_loss :: mean_metric
  checkpoint :: checkpoints
  current_epoch :: int
  local_step :: int
  saved :: "'m store"
  trace :: "'m event list"

definition train_step ::
  "'m collab \<Rightarrow> nat \<Rightarrow> nat \<Rightarrow> tensor \<Rightarrow> tensor \<Rightarrow> 'm fold_state \<Rightarrow> 'm fold_state" where
  "train_step c fold_id global_step img msk st =
     (let r = train_fn c (model st) img msk
      in st\<lparr>model := fst r,
            train_loss := update_state c (train_loss st) (snd r),
            trace := trace st @ [TrainStep fold_id global_step img msk]\<rparr>)"

definition val_step :: "'m collab \<Rightarrow> nat \<Rightarrow> 'm fold_state \<Rightarrow> batch \<Rightarrow> 'm fold_state" where
  "val_step c fold_id st b =
     st\<lparr>val_loss := update_state c (val_loss st) (val_fn c (model st) (fst b) (snd b)),
        trace := trace st @ [ValStep fold_id (fst b) (snd b)]\<rparr>"

text \<open>
  A call of the progress bar or of the logger, which hold the two accumulators.
  \<^verbatim>\<open>run.py\<close> itself only gives losses to the accumulators, in \<^verbatim>\<open>train_step\<close> and in
  \<^verbatim>\<open>val_step\<close>, and reads the result of one; it never resets them: only these calls
  can.
\<close>

definition display :: "(accumulators \<Rightarrow> accumulators) \<Rightarrow> 'm fold_state \<Rightarrow> 'm fold_state" where
  "display h st =
     (let a = h (train_loss st, val_loss st)
      in st\<lparr>train_loss := fst a, val_loss := snd a\<rparr>)"

text \<open>
  Lines 299 to 301: \<^verbatim>\<open>train_step(image, mask)\<close>, \<^verbatim>\<open>progress_bar.update_train_bar()\<close> and
  \<^verbatim>\<open>local_step += 1\<close>.
\<close>

definition train_iteration ::
  "'m collab \<Rightarrow> nat \<Rightarrow> nat \<Rightarrow> tensor \<Rightarrow> tensor \<Rightarrow> 'm fold_state \<Rightarrow> 'm fold_state" where
  "train_iteration c fold_id global_step img msk st =
     (let st0 = display (update_train_bar c) (train_step c fold_id global_step img msk st)
      in st0\<lparr>local_step := local_step st0 + 1\<rparr>)"

text \<open>
  Lines 308 and 309, the body of the validation loop: \<^verbatim>\<open>val_step(val_image, val_mask)\<close>
  and \<^verbatim>\<open>progress_bar.update_val_bar()\<close>.
\<close>

definition val_iteration :: "'m collab \<Rightarrow> nat \<Rightarrow> 'm fold_state \<Rightarrow> batch \<Rightarrow> 'm fold_state" where
  "val_iteration c fold_id st b = display (update_val_bar c) (val_step c fold_id st b)"

text \<open>
  Lines 304 to 320: one validation round. \<open>vals\<close> are the batches that
  \<^verbatim>\<open>val_loader.take(len(val_images))\<close> yields.
\<close>

definition validation :: "'m collab \<Rightarrow> nat \<Rightarrow> batch list \<Rightarrow> 'm fold_state \<Rightarrow> 'm fold_state" where
  "validation c fold_id vals st =
     (let st1 = foldl (val_iteration c fold_id) st vals;
          current_val_loss = result c (val_loss st1);
          r = Checkpoints_update (checkpoint st1) (saved st1) (model st1) current_val_loss;
          st2 = st1\<lparr>checkpoint := fst r, saved := snd r,
                    trace := trace st1 @ [CheckpointUpdate fold_id (model st1) current_val_loss]\<rparr>;
          st3 = (display (logs_update c) st2)
                  \<lparr>trace := trace st2 @ [LogsUpdate fold_id (current_epoch st2)]\<rparr>;
          st4 = display (pb_reset c) st3
      in st4\<lparr>current_epoch := current_epoch st4 + 1, local_step := 1\<rparr>)"

text \<open>
  Lines 285 to 320: \<^verbatim>\<open>for global_step, (image, mask) in enumerate(train_loader)\<close>.
  The loader is the sequence of its items, \<open>None\<close> once it is exhausted; a cycling
  loader never is. Both conversions run before the budget is tested, and the modulus
  raises when \<open>steps_per_epoch\<close> is 0.
\<close>

function train_loop ::
  "'m collab \<Rightarrow> nat \<Rightarrow> int \<Rightarrow> int \<Rightarrow> (nat \<Rightarrow> batch option) \<Rightarrow> batch list \<Rightarrow> nat \<Rightarrow>
   'm fold_state \<Rightarrow> (error \<times> 'm fold_state) + 'm fold_state" where
  "train_loop c fold_id total_steps S loader vals global_step st =
     (case loader global_step of
        None \<Rightarrow> Inr st
      | Some b \<Rightarrow>
          (case rgb_to_grayscale (fst b) of
             Inl e \<Rightarrow> Inl (e, st)
           | Inr img \<Rightarrow>
               (case rgb_to_grayscale (snd b) of
                  Inl e \<Rightarrow> Inl (e, st)
                | Inr msk \<Rightarrow>
                    if total_steps \<le> int global_step then Inr st
                    else
                      (let st1 = train_iteration c fold_id global_step img msk st
                       in if S = 0 then Inl (ZeroDivisionError, st1)
                          else if (int global_step + 1) mod S = 0 \<and> 0 < global_step
                          then train_loop c fold_id total_steps S loader vals (Suc global_step)
                                 (validation c fold_id vals st1)
                          else train_loop c fold_id total_steps S loader vals (Suc global_step)
                                 st1))))"
  by pat_completeness auto
termination
  by (relation "measure (\<lambda>(c, fold_id, total_steps, S, loader, vals, global_step, st).
        nat (total_steps - int global_step))") auto

declare train_loop.simps [simp del]

section \<open>\<^verbatim>\<open>RunTime\<close>\<close>

text \<open>
  The configuration that \<^verbatim>\<open>train\<close> only reads, and the state it changes:
  \<^verbatim>\<open>self.args.steps_per_epoch\<close>, the local variable \<^verbatim>\<open>learning_rate\<close> (\<open>None\<close> while
  it is unbound), \<^verbatim>\<open>self.results_df\<close> (the ids of its rows), \<^verbatim>\<open>self.k_metrics\<close>, the
  saved models, the other files on disk, and the events so far.
\<close>

record config =
  epochs :: int
  batch_size :: int
  optimizer :: string
  folds :: "nat list"
  results :: path
  task :: string
  n_channels :: nat

text \<open>
  Modelled from the spec: what the metrics object \<^verbatim>\<open>self.k_metrics\<close> keeps
  (\<^verbatim>\<open>kFoldMetrics.py\<close> is missing from the sources). Section 4.5: \<^verbatim>\<open>on_epoch_end\<close>
  appends one row to an in-memory log; a row is the fold and the learning rate of the
  call.
\<close>

record 'm run_time =
  args_steps_per_epoch :: "int option"
  learning_rate :: "real option"
  results_df :: "string list"
  k_metrics :: "(nat \<times> real) list"
  models :: "'m store"
  files :: "path set"
  log :: "'m event list"

text \<open>
  What the external splitting and data loading give for one fold: the number of training
  images left after the validation split, the training loader, the validation batches,
  the ids of the rows of \<^verbatim>\<open>test_df\<close>, and the items of the test loader.
\<close>

record fold_data =
  n_train_images :: nat
  train_loader :: "nat \<Rightarrow> batch option"
  val_batches :: "batch list"
  test_df :: "string list"
  test_loader :: "batch list"

definition best_model_path :: "config \<Rightarrow> nat \<Rightarrow> path" where
  "best_model_path cfg fold_id =
     path_join (path_join (path_join (results cfg) ''models'') ''best'')
       (task cfg @ ''_best_model_split_'' @ str_nat fold_id)"

definition last_model_path :: "config \<Rightarrow> nat \<Rightarrow> path" where
  "last_model_path cfg fold_id =
     path_join (path_join (path_join (results cfg) ''models'') ''last'')
       (task cfg @ ''_last_model_split_'' @ str_nat fold_id)"

definition raw_dir :: "config \<Rightarrow> path" where
  "raw_dir cfg =
     path_join (path_join (path_join (results cfg) ''predictions'') ''train'') ''raw''"

definition pred_temp_filename :: "config \<Rightarrow> path" where
  "pred_temp_filename cfg = path_join (raw_dir cfg) ''pred_temp.nii.gz''"

definition mask_temp_filename :: "config \<Rightarrow> path" where
  "mask_temp_filename cfg = path_join (raw_dir cfg) ''mask_temp.nii.gz''"

text \<open>
  Lines 71 to 101, one case of the evaluation loop: the prediction is written under the
  case's id, \<^verbatim>\<open>evaluate_prediction\<close> (not among the sources) is given the two
  temporary file names and is taken to write both, and its row is appended to
  \<^verbatim>\<open>results_df\<close>.
\<close>

definition evaluate_case :: "config \<Rightarrow> 'm run_time \<Rightarrow> batch \<times> string \<Rightarrow> 'm run_time" where
  "evaluate_case cfg rt x =
     rt\<lparr>files := files rt \<union>
            {path_join (raw_dir cfg) (snd x @ ''.nii.gz''),
             pred_temp_filename cfg, mask_temp_filename cfg},
        results_df := results_df rt @ [snd x]\<rparr>"

text \<open>
  Lines 63 to 110. \<^verbatim>\<open>load_model\<close> raises \<^verbatim>\<open>OSError\<close> when nothing is saved at the
  path; \<^verbatim>\<open>os.remove\<close> raises \<^verbatim>\<open>FileNotFoundError\<close> when the file does not exist.
\<close>

definition predict_and_evaluate_val ::
  "config \<Rightarrow> path \<Rightarrow> string list \<Rightarrow> batch list \<Rightarrow> 'm run_time \<Rightarrow>
   (error \<times> 'm run_time) + 'm run_time" where
  "predict_and_evaluate_val cfg model_path df ds rt =
     (case models rt model_path of
        None \<Rightarrow> Inl (OSError, rt)
      | Some m \<Rightarrow>
          (let rt0 = rt\<lparr>log := log rt @ [LoadModel model_path m]\<rparr>;
               rt1 = foldl (evaluate_case cfg) rt0 (zip (take (length df) ds) df)
           in if pred_temp_filename cfg \<notin> files rt1 then Inl (FileNotFoundError, rt1)
              else
                (let rt2 = rt1\<lparr>files := files rt1 - {pred_temp_filename cfg}\<rparr>
                 in if mask_temp_filename cfg \<notin> files rt2 then Inl (FileNotFoundError, rt2)
                    else Inr (rt2\<lparr>files := files rt2 - {mask_temp_filename cfg}\<rparr>))))"

text \<open>Lines 203 to 206: the steps per epoch of the fold.\<close>

definition fold_steps :: "config \<Rightarrow> fold_data \<Rightarrow> 'm run_time \<Rightarrow> error + int" where
  "fold_steps cfg d rt =
     (case args_steps_per_epoch rt of
        None \<Rightarrow>
          if batch_size cfg = 0 then Inl ZeroDivisionError
          else Inr (int (n_train_images d) div batch_size cfg)
      | Some s \<Rightarrow> Inr s)"

text \<open>Lines 209 to 284: the fresh objects of the fold.\<close>

definition fold_init :: "config \<Rightarrow> 'm collab \<Rightarrow> nat \<Rightarrow> 'm run_time \<Rightarrow> 'm fold_state" where
  "fold_init cfg c fold_id rt =
     \<lparr>model = get_model c (n_channels cfg),
      train_loss = Mean,
      val_loss = Mean,
      checkpoint = Checkpoints (best_model_path cfg fold_id) (last_model_path cfg fold_id) None,
      current_epoch = 1,
      local_step = 1,
      saved = models rt,
      trace = []\<rparr>"

definition fold_training ::
  "config \<Rightarrow> 'm collab \<Rightarrow> fold_data \<Rightarrow> nat \<Rightarrow> int \<Rightarrow> 'm run_time \<Rightarrow>
   (error \<times> 'm fold_state) + 'm fold_state" where
  "fold_training cfg c d fold_id S rt =
     train_loop c fold_id (epochs cfg * S) S (train_loader d) (val_batches d) 0
       (fold_init cfg c fold_id rt)"

text \<open>
  Lines 321 to 363: the end of the fold. \<^verbatim>\<open>learning_rate\<close> is assigned only for the
  optimizer \<^verbatim>\<open>'adam'\<close>; reading it unbound, for the arguments of \<^verbatim>\<open>on_epoch_end\<close>,
  raises \<^verbatim>\<open>UnboundLocalError\<close>, a \<^verbatim>\<open>NameError\<close>.
\<close>

definition fold_finish ::
  "config \<Rightarrow> 'm collab \<Rightarrow> fold_data \<Rightarrow> nat \<Rightarrow> 'm fold_state \<Rightarrow> 'm run_time \<Rightarrow>
   (error \<times> 'm run_time) + 'm run_time" where
  "fold_finish cfg c d fold_id st rt =
     (let lr = (if optimizer cfg = ''adam'' then Some (lr_fn c (model st))
                else learning_rate rt);
          rt1 = rt\<lparr>learning_rate := lr, models := saved st, log := log rt @ trace st\<rparr>
      in case lr of
           None \<Rightarrow> Inl (NameError, rt1)
         | Some v \<Rightarrow>
             (let rt2 = rt1\<lparr>k_metrics := k_metrics rt1 @ [(fold_id, v)],
                           log := log rt1 @ [OnEpochEnd fold_id v]\<rparr>;
                  p = best_model_path cfg fold_id @ ''/best/'';
                  rt3 = rt2\<lparr>models := save_last_model (models rt2) (model st) p,
                            log := log rt2 @ [SaveLastModel fold_id p]\<rparr>
              in case predict_and_evaluate_val cfg (best_model_path cfg fold_id)
                        (test_df d) (test_loader d) rt3 of
                   Inl e \<Rightarrow> Inl e
                 | Inr rt4 \<Rightarrow> Inr (rt4\<lparr>log := log rt4 @ [OnKFoldEnd fold_id]\<rparr>)))"

text \<open>Lines 176 to 363: one iteration of the fold loop.\<close>

definition train_fold ::
  "config \<Rightarrow> 'm collab \<Rightarrow> fold_data list \<Rightarrow> nat \<Rightarrow> 'm run_time \<Rightarrow>
   (error \<times> 'm run_time) + 'm run_time" where
  "train_fold cfg c splits fold_id rt =
     (if length splits \<le> fold_id then Inl (IndexError, rt)
      else
        (let d = splits ! fold_id
         in case fold_steps cfg d rt of
              Inl e \<Rightarrow> Inl (e, rt)
            | Inr S \<Rightarrow>
                (let rt1 = rt\<lparr>args_steps_per_epoch := Some S\<rparr>
                 in case fold_training cfg c d fold_id S rt1 of
                      Inl x \<Rightarrow>
                        Inl (fst x, rt1\<lparr>models := saved (snd x),
                                        log := log rt1 @ trace (snd x)\<rparr>)
                    | Inr st \<Rightarrow> fold_finish cfg c d fold_id st rt1)))"

fun run_folds ::
  "config \<Rightarrow> 'm collab \<Rightarrow> fold_data list \<Rightarrow> nat list \<Rightarrow> 'm run_time \<Rightarrow>
   (error \<times> 'm run_time) + 'm run_time" where
  "run_folds cfg c splits [] rt = Inr rt"
| "run_folds cfg c splits (fold_id # rest) rt =
     (case train_fold cfg c splits fold_id rt of
        Inl e \<Rightarrow> Inl e
      | Inr rt' \<Rightarrow> run_folds cfg c splits rest rt')"

text \<open>
  Lines 172 to 366: the metrics object is constructed, once; then the fold loop over
  \<^verbatim>\<open>self.args.folds\<close>, then \<^verbatim>\<open>on_training_end\<close>. \<^verbatim>\<open>learning_rate\<close> is unbound when
  \<^verbatim>\<open>train\<close> starts.
\<close>

definition train ::
  "config \<Rightarrow> 'm collab \<Rightarrow> fold_data list \<Rightarrow> 'm run_time \<Rightarrow>
   (error \<times> 'm run_time) + 'm run_time" where
  "train cfg c splits rt =
     (case run_folds cfg c splits (folds cfg) (rt\<lparr>k_metrics := [], learning_rate := None\<rparr>) of
        Inl e \<Rightarrow> Inl e
      | Inr rt' \<Rightarrow> Inr (rt'\<lparr>log := log rt' @ [OnTrainingEnd]\<rparr>))"

section \<open>Sliding-window patch origins\<close>

text \<open>
  Modelled from the spec: the patch origins of \<^verbatim>\<open>sliding_window_inference\<close>
  (\<^verbatim>\<open>inference/sliding_window.py\<close> is missing from the sources; \<^verbatim>\<open>val_step\<close> only
  calls it). Section 4.2, step 1: along each axis the origins start at 0, advance by
  the step size, and the final origin is exactly \<open>volume_shape - patch_shape\<close>
  (clamped). \<open>limit\<close> is \<open>volume_shape - patch_shape\<close>. The step size
  \<open>patch_shape * (1 - overlap_fraction)\<close> is taken as a number of voxels; the spec
  gives no origins for a step of 0, where the model stops at the clamped origin.
\<close>

function origins_from :: "nat \<Rightarrow> nat \<Rightarrow> nat \<Rightarrow> nat list" where
  "origins_from limit step origin =
     (if step = 0 \<or> limit \<le> origin then [limit]
      else origin # origins_from limit step (origin + step))"
  by pat_completeness auto
termination
  by (relation "measure (\<lambda>(limit, step, origin). limit - origin)") auto

declare origins_from.simps [simp del]

text \<open>
  Modelled from the spec: section 4.2, the engine fails with \<open>ShapeError\<close> if the
  volume has fewer voxels than the patch along any axis.
\<close>

definition axis_origins :: "nat \<Rightarrow> nat \<Rightarrow> nat \<Rightarrow> error + nat list" where
  "axis_origins volume patch step =
     (if volume < patch then Inl ShapeError
      else Inr (origins_from (volume - patch) step 0))"

type_synonym shape = "nat \<times> nat \<times> nat"

text \<open>
  Modelled from the spec: the origins of the patches of a 3D volume are the
  combinations of the origins along the three axes.
\<close>

definition patch_origins :: "shape \<Rightarrow> shape \<Rightarrow> shape \<Rightarrow> error + shape list" where
  "patch_origins volume patch step =
     (case axis_origins (fst volume) (fst patch) (fst step) of
        Inl e \<Rightarrow> Inl e
      | Inr xs \<Rightarrow>
          (case axis_origins (fst (snd volume)) (fst (snd patch)) (fst (snd step)) of
             Inl e \<Rightarrow> Inl e
           | Inr ys \<Rightarrow>
               (case axis_origins (snd (snd volume)) (snd (snd patch)) (snd (snd step)) of
                  Inl e \<Rightarrow> Inl e
                | Inr zs \<Rightarrow>
                    Inr (concat (map (\<lambda>x. concat (map (\<lambda>y. map (\<lambda>z. (x, y, z)) zs) ys))
                           xs)))))"

definition le_shape :: "shape \<Rightarrow> shape \<Rightarrow> bool" where
  "le_shape a b =
     (fst a \<le> fst b \<and> fst (snd a) \<le> fst (snd b) \<and> snd (snd a) \<le> snd (snd b))"

definition lt_shape :: "shape \<Rightarrow> shape \<Rightarrow> bool" where
  "lt_shape a b =
     (fst a < fst b \<and> fst (snd a) < fst (snd b) \<and> snd (snd a) < snd (snd b))"

definition add_shape :: "shape \<Rightarrow> shape \<Rightarrow> shape" where
  "add_shape a b = (fst a + fst b, fst (snd a) + fst (snd b), snd (snd a) + snd (snd b))"

definition in_patch :: "shape \<Rightarrow> shape \<Rightarrow> shape \<Rightarrow> bool" where
  \<comment> \<open>the voxel \<open>x\<close> lies in the region \<open>[origin, origin + patch)\<close>\<close>
  "in_patch patch origin x = (le_shape origin x \<and> lt_shape x (add_shape origin patch))"

text \<open>
  What section 4.2 says of the origins along one axis: they start at 0, advance by the
  step size, and are clamped to \<open>volume_shape - patch_shape\<close>, which is the last one.
\<close>

definition axis_spec :: "nat \<Rightarrow> nat \<Rightarrow> nat \<Rightarrow> nat list \<Rightarrow> bool" where
  "axis_spec v p s xs =
     (xs \<noteq> [] \<and> hd xs = 0 \<and> last xs = v - p \<and>
      (\<forall>i<length xs. xs ! i = min (i * s) (v - p)))"

section \<open>Auxiliary notions for the training loop\<close>

text \<open>
  One iteration of the training loop that stays within the budget: lines 299 to 320, with
  the converted batch.
\<close>

definition epoch_step ::
  "'m collab \<Rightarrow> nat \<Rightarrow> int \<Rightarrow> batch list \<Rightarrow> nat \<Rightarrow> tensor \<Rightarrow> tensor \<Rightarrow> 'm fold_state \<Rightarrow>
   'm fold_state" where
  "epoch_step c fold_id S vals global_step img msk st =
     (let st1 = train_iteration c fold_id global_step img msk st
      in if (int global_step + 1) mod S = 0 \<and> 0 < global_step
         then validation c fold_id vals st1 else st1)"

definition is_rgb :: "tensor \<Rightarrow> bool" where
  "is_rgb t = (dims t \<noteq> [] \<and> last (dims t) = 3)"

definition to_gray :: "tensor \<Rightarrow> tensor" where
  \<comment> \<open>the value of \<open>rgb_to_grayscale\<close> where it does not raise\<close>
  "to_gray t = t\<lparr>dims := butlast (dims t) @ [1]\<rparr>"

definition yields :: "(nat \<Rightarrow> batch option) \<Rightarrow> nat \<Rightarrow> bool" where
  \<comment> \<open>the loader has at least \<open>n\<close> items, and its items up to the one numbered \<open>n\<close> are RGB\<close>
  "yields loader n =
     (\<forall>i\<le>n. case loader i of
               None \<Rightarrow> n \<le> i
             | Some b \<Rightarrow> is_rgb (fst b) \<and> is_rgb (snd b))"

definition supplies :: "(nat \<Rightarrow> batch option) \<Rightarrow> nat \<Rightarrow> bool" where
  \<comment> \<open>the loader has at least \<open>n\<close> items, and its first \<open>n\<close> items are RGB\<close>
  "supplies loader n =
     (\<forall>i<n. case loader i of
               None \<Rightarrow> False
             | Some b \<Rightarrow> is_rgb (fst b) \<and> is_rgb (snd b))"

definition outcome :: "(error \<times> 's) + 's \<Rightarrow> 's" where
  \<comment> \<open>the state in which a function returns or raises\<close>
  "outcome r = (case r of Inl x \<Rightarrow> snd x | Inr s \<Rightarrow> s)"

definition forget :: "'m fold_state \<Rightarrow> 'm fold_state" where
  \<comment> \<open>the state of a fold without the models saved on disk\<close>
  "forget st = st\<lparr>saved := Map.empty\<rparr>"

definition training_of ::
  "(error \<times> 'm fold_state) + 'm fold_state \<Rightarrow> (error \<times> 'm fold_state) + 'm fold_state" where
  \<comment> \<open>the outcome of the training of a fold without the models saved on disk\<close>
  "training_of r = map_sum (map_prod id forget) forget r"

section \<open>Observations of a run\<close>

definition is_train_step :: "'m event \<Rightarrow> bool" where
  "is_train_step ev = (case ev of TrainStep f g i m \<Rightarrow> True | _ \<Rightarrow> False)"

definition is_val_step :: "'m event \<Rightarrow> bool" where
  "is_val_step ev = (case ev of ValStep f i m \<Rightarrow> True | _ \<Rightarrow> False)"

definition is_checkpoint_update :: "'m event \<Rightarrow> bool" where
  "is_checkpoint_update ev = (case ev of CheckpointUpdate f m l \<Rightarrow> True | _ \<Rightarrow> False)"

definition train_steps :: "'m event list \<Rightarrow> nat" where
  "train_steps evs = length (filter is_train_step evs)"

definition val_steps :: "'m event list \<Rightarrow> nat" where
  "val_steps evs = length (filter is_val_step evs)"

definition val_rounds :: "'m event list \<Rightarrow> nat" where
  \<comment> \<open>each validation round ends with one call of \<^verbatim>\<open>checkpoint.update\<close>\<close>
  "val_rounds evs = length (filter is_checkpoint_update evs)"


definition within_budget :: "int \<Rightarrow> 'm event \<Rightarrow> bool" where
  \<comment> \<open>a training step is numbered below the total number of steps\<close>
  "within_budget total_steps ev =
     (case ev of TrainStep f g i m \<Rightarrow> int g < total_steps | _ \<Rightarrow> True)"

definition gray_step :: "(nat \<Rightarrow> batch option) \<Rightarrow> 'm event \<Rightarrow> bool" where
  \<comment> \<open>a training step is given the grayscale conversions of the loader's item of its number\<close>
  "gray_step loader ev =
     (case ev of
        TrainStep f g i m \<Rightarrow>
          channels i = 1 \<and> channels m = 1 \<and>
          (case loader g of
             None \<Rightarrow> False
           | Some b \<Rightarrow> rgb_to_grayscale (fst b) = Inr i \<and> rgb_to_grayscale (snd b) = Inr m)
      | _ \<Rightarrow> True)"

definition round_losses :: "'m collab \<Rightarrow> batch list \<Rightarrow> 'm \<Rightarrow> real list" where
  \<comment> \<open>the validation losses of one round, for the model \<open>m\<close>\<close>
  "round_losses c vals m = map (\<lambda>b. val_fn c m (fst b) (snd b)) vals"




fun updates :: "'m event list \<Rightarrow> ('m \<times> real) list" where
  \<comment> \<open>the arguments of the calls of \<^verbatim>\<open>checkpoint.update\<close>, in order\<close>
  "updates [] = []"
| "updates (CheckpointUpdate f m l # evs) = (m, l) # updates evs"
| "updates (ev # evs) = updates evs"





text \<open>
  The schedule of the training of a fold: its training steps with their numbers, its
  validation steps with their batches, and its calls of \<^verbatim>\<open>checkpoint.update\<close>.
\<close>

datatype phase = Train nat | Val tensor tensor | Update

fun phase_of :: "'m event \<Rightarrow> phase list" where
  "phase_of (TrainStep f g i m) = [Train g]"
| "phase_of (ValStep f i m) = [Val i m]"
| "phase_of (CheckpointUpdate f m l) = [Update]"
| "phase_of ev = []"

definition schedule :: "'m event list \<Rightarrow> phase list" where
  "schedule evs = concat (map phase_of evs)"

definition epoch_schedule :: "nat \<Rightarrow> batch list \<Rightarrow> nat \<Rightarrow> phase list" where
  \<comment> \<open>the epoch numbered \<open>e\<close>, of \<open>k\<close> steps: its training steps, then one validation step for
      each validation batch, then the update of the checkpoints\<close>
  "epoch_schedule k vals e =
     map Train [e * k ..< e * k + k] @ map (\<lambda>b. Val (fst b) (snd b)) vals @ [Update]"

definition run_schedule :: "nat \<Rightarrow> batch list \<Rightarrow> nat \<Rightarrow> phase list" where
  \<comment> \<open>\<open>E\<close> epochs, one after the other\<close>
  "run_schedule k vals E = concat (map (epoch_schedule k vals) [0 ..< E])"

fun sched :: "nat \<Rightarrow> batch list \<Rightarrow> nat \<Rightarrow> nat \<Rightarrow> phase list" where
  \<comment> \<open>the schedule of the \<open>n\<close> steps from the one numbered \<open>g\<close>, step by step\<close>
  "sched k vals g 0 = []"
| "sched k vals g (Suc n) =
     Train g #
     (if Suc g mod k = 0 then map (\<lambda>b. Val (fst b) (snd b)) vals @ [Update] else []) @
     sched k vals (Suc g) n"

text \<open>
  The lifecycle of a run: the epoch boundaries (each validation round ends with one call
  of \<^verbatim>\<open>checkpoint.update\<close>), the calls of the metrics aggregator and the loading of
  the model for the test evaluation, without their other arguments.
\<close>

datatype hook = EpochBoundary nat | EpochEnd nat | Evaluation path | KFoldEnd nat | TrainingEnd

fun hook_of :: "'m event \<Rightarrow> hook list" where
  "hook_of (CheckpointUpdate f m l) = [EpochBoundary f]"
| "hook_of (OnEpochEnd f lr) = [EpochEnd f]"
| "hook_of (LoadModel p m) = [Evaluation p]"
| "hook_of (OnKFoldEnd f) = [KFoldEnd f]"
| "hook_of OnTrainingEnd = [TrainingEnd]"
| "hook_of ev = []"

definition hooks :: "'m event list \<Rightarrow> hook list" where
  "hooks evs = concat (map hook_of evs)"

definition fold_hooks :: "config \<Rightarrow> nat \<Rightarrow> hook list" where
  \<comment> \<open>the calls of one fold that completes\<close>
  "fold_hooks cfg fold_id =
     [EpochEnd fold_id, Evaluation (best_model_path cfg fold_id), KFoldEnd fold_id]"

section \<open>Concrete inputs\<close>

text \<open>
  A model that counts its training steps, with a training loss of 1, a validation loss
  equal to the number of steps taken, and a learning rate of 1/1000; the arithmetic is
  exact, the progress bar resets both accumulators, and neither its other calls nor the
  logger change them.
\<close>

definition counting :: "nat collab" where
  "counting =
     \<lparr>get_model = (\<lambda>n. 0), train_fn = (\<lambda>m i k. (Suc m, 1)),
      val_fn = (\<lambda>m i k. real m), lr_fn = (\<lambda>m. 1 / 1000),
      fadd = (\<lambda>x y. x + y), div_no_nan = (\<lambda>x y. if y = 0 then 0 else x / y),
      update_train_bar = (\<lambda>a. a), update_val_bar = (\<lambda>a. a), logs_update = (\<lambda>a. a),
      pb_reset = (\<lambda>a. (Mean, Mean))\<rparr>"



definition rgb_tensor :: "nat \<Rightarrow> tensor" where
  "rgb_tensor i = \<lparr>dims = [2, 4, 4, 4, 3], ident = i\<rparr>"

definition rgb_loader :: "nat \<Rightarrow> batch option" where
  \<comment> \<open>a loader that never ends\<close>
  "rgb_loader i = Some (rgb_tensor i, rgb_tensor i)"

definition endless :: fold_data where
  \<comment> \<open>a fold with a cycling training loader, one validation case and one test case\<close>
  "endless =
     \<lparr>n_train_images = 8, train_loader = rgb_loader,
      val_batches = [(rgb_tensor 0, rgb_tensor 0)], test_df = [''case0''],
      test_loader = [(rgb_tensor 0, rgb_tensor 0)]\<rparr>"

definition gray_loader :: "nat \<Rightarrow> batch option" where
  \<comment> \<open>a loader of one-channel images and masks\<close>
  "gray_loader i =
     Some (\<lparr>dims = [2, 4, 4, 4, 1], ident = i\<rparr>, \<lparr>dims = [2, 4, 4, 4, 1], ident = i\<rparr>)"

definition gray_fold :: fold_data where
  "gray_fold = endless\<lparr>train_loader := gray_loader\<rparr>"



definition fresh_state :: "nat fold_state" where
  "fresh_state =
     \<lparr>model = 0, train_loss = Mean, val_loss = Mean,
      checkpoint = Checkpoints ''b'' ''l'' None, current_epoch = 1, local_step = 1,
      saved = Map.empty, trace = []\<rparr>"


definition empty_run :: "nat run_time" where
  "empty_run =
     \<lparr>args_steps_per_epoch = None, learning_rate = None, results_df = [],
      k_metrics = [], models = Map.empty, files = {}, log = []\<rparr>"

definition configured_run :: "nat run_time" where
  \<comment> \<open>a run with 2 steps per epoch configured\<close>
  "configured_run = empty_run\<lparr>args_steps_per_epoch := Some 2\<rparr>"

definition tiny_config :: config where
  "tiny_config =
     \<lparr>epochs = 2, batch_size = 1, optimizer = ''adam'', folds = [0], results = ''out'',
      task = ''T'', n_channels = 4\<rparr>"





section \<open>Properties\<close>

subsection \<open>Sliding-window coverage\<close>

lemma origins_cover:
  "0 < step \<Longrightarrow> step \<le> p \<Longrightarrow> cur \<le> x \<Longrightarrow> x < L + p \<Longrightarrow>
   \<exists>og\<in>set (origins_from L step cur). og \<le> x \<and> x < og + p"
proof (induction L step cur rule: origins_from.induct)
  case (1 limit step origin)
  show ?case
  proof (cases "limit \<le> origin")
    case True
    then show ?thesis using 1 by (simp add: origins_from.simps[of limit step origin])
  next
    case False
    show ?thesis
    proof (cases "x < origin + p")
      case True
      then show ?thesis using 1 False by (simp add: origins_from.simps[of limit step origin])
    next
      case F2: False
      then have "origin + step \<le> x" using 1 by simp
      then have "\<exists>og\<in>set (origins_from limit step (origin + step)). og \<le> x \<and> x < og + p"
        using 1 False by simp
      then show ?thesis using 1 False by (auto simp add: origins_from.simps[of limit step origin])
    qed
  qed
qed

lemma origins_ne: "origins_from L step cur \<noteq> []"
  by (subst origins_from.simps) simp

lemma origins_last: "last (origins_from L step cur) = L"
proof (induction L step cur rule: origins_from.induct)
  case (1 limit step origin)
  show ?case
  proof (cases "step = 0 \<or> limit \<le> origin")
    case True
    then show ?thesis by (simp add: origins_from.simps[of limit step origin])
  next
    case False
    then show ?thesis using 1 origins_ne[of limit step "origin + step"]
      by (simp add: origins_from.simps[of limit step origin])
  qed
qed

lemma origins_hd: "0 < step \<Longrightarrow> hd (origins_from L step 0) = 0"
  by (subst origins_from.simps) simp

lemma origins_le: "og \<in> set (origins_from L step cur) \<Longrightarrow> og \<le> L"
proof (induction L step cur rule: origins_from.induct)
  case (1 limit step origin)
  show ?case
  proof (cases "step = 0 \<or> limit \<le> origin")
    case True
    then show ?thesis using 1(2) by (simp add: origins_from.simps[of limit step origin])
  next
    case False
    then show ?thesis using 1 by (auto simp add: origins_from.simps[of limit step origin])
  qed
qed

lemma origins_nth:
  "0 < step \<Longrightarrow> i < length (origins_from L step cur) \<Longrightarrow>
   origins_from L step cur ! i = min (cur + i * step) L"
proof (induction L step cur arbitrary: i rule: origins_from.induct)
  case (1 limit step origin)
  show ?case
  proof (cases "limit \<le> origin")
    case True
    then show ?thesis using 1(3) by (simp add: origins_from.simps[of limit step origin])
  next
    case False
    show ?thesis
    proof (cases i)
      case 0
      then show ?thesis using False 1(2) by (simp add: origins_from.simps[of limit step origin])
    next
      case (Suc j)
      then have "j < length (origins_from limit step (origin + step))"
        using 1(3) False 1(2) by (simp add: origins_from.simps[of limit step origin])
      then have "origins_from limit step (origin + step) ! j = min (origin + step + j * step) limit"
        using 1 False by simp
      then show ?thesis using False 1(2) Suc
        by (simp add: origins_from.simps[of limit step origin] add.assoc)
    qed
  qed
qed

lemma axis_cover:
  assumes "p \<le> v" "0 < s" "s \<le> p" "x < v"
  shows "\<exists>og\<in>set (origins_from (v - p) s 0). og \<le> x \<and> x < og + p \<and> og + p \<le> v"
proof -
  have "x < (v - p) + p" using assms by simp
  then obtain og where og: "og \<in> set (origins_from (v - p) s 0)" "og \<le> x" "x < og + p"
    using origins_cover[of s p 0 x "v - p"] assms by auto
  have "og \<le> v - p" using og(1) by (rule origins_le)
  then have "og + p \<le> v" using assms(1) by simp
  then show ?thesis using og by blast
qed

lemma axis_spec_origins: "0 < s \<Longrightarrow> axis_spec v p s (origins_from (v - p) s 0)"
  unfolding axis_spec_def using origins_nth[of s _ "v - p" 0]
  by (simp add: origins_ne origins_last origins_hd)

text \<open>
  C2. For a patch no larger than the volume along every axis and a step size between 1
  and the patch size, the origins along each axis start at 0, advance by the step size
  and end clamped at exactly \<open>volume_shape - patch_shape\<close>; every patch lies inside
  the volume, and every voxel of the volume lies in some patch.
\<close>

theorem sliding_window_coverage:
  assumes "le_shape patch volume" and "lt_shape (0, 0, 0) step" and "le_shape step patch"
  shows "\<exists>xs ys zs.
           axis_origins (fst volume) (fst patch) (fst step) = Inr xs \<and>
           axis_origins (fst (snd volume)) (fst (snd patch)) (fst (snd step)) = Inr ys \<and>
           axis_origins (snd (snd volume)) (snd (snd patch)) (snd (snd step)) = Inr zs \<and>
           axis_spec (fst volume) (fst patch) (fst step) xs \<and>
           axis_spec (fst (snd volume)) (fst (snd patch)) (fst (snd step)) ys \<and>
           axis_spec (snd (snd volume)) (snd (snd patch)) (snd (snd step)) zs \<and>
           (\<exists>os. patch_origins volume patch step = Inr os \<and>
                 set os = set xs \<times> set ys \<times> set zs \<and>
                 (\<forall>og\<in>set os. le_shape (add_shape og patch) volume) \<and>
                 (\<forall>x. lt_shape x volume \<longrightarrow> (\<exists>og\<in>set os. in_patch patch og x)))"
proof -
  obtain v1 v2 v3 where v: "volume = (v1, v2, v3)" by (cases volume) auto
  obtain p1 p2 p3 where p: "patch = (p1, p2, p3)" by (cases patch) auto
  obtain s1 s2 s3 where s: "step = (s1, s2, s3)" by (cases step) auto
  have le: "p1 \<le> v1" "p2 \<le> v2" "p3 \<le> v3" using assms(1) by (simp_all add: le_shape_def v p)
  have pos: "0 < s1" "0 < s2" "0 < s3" using assms(2) by (simp_all add: lt_shape_def s)
  have sp: "s1 \<le> p1" "s2 \<le> p2" "s3 \<le> p3" using assms(3) by (simp_all add: le_shape_def s p)
  let ?xs = "origins_from (v1 - p1) s1 0"
  let ?ys = "origins_from (v2 - p2) s2 0"
  let ?zs = "origins_from (v3 - p3) s3 0"
  let ?os = "concat (map (\<lambda>x. concat (map (\<lambda>y. map (\<lambda>z. (x, y, z)) ?zs) ?ys)) ?xs)"
  have ax: "axis_origins v1 p1 s1 = Inr ?xs" "axis_origins v2 p2 s2 = Inr ?ys"
    "axis_origins v3 p3 s3 = Inr ?zs"
    using le by (simp_all add: axis_origins_def)
  have po: "patch_origins volume patch step = Inr ?os"
    by (simp add: patch_origins_def v p s ax)
  have setos: "set ?os = set ?xs \<times> set ?ys \<times> set ?zs" by auto
  have inside: "\<forall>og\<in>set ?os. le_shape (add_shape og patch) volume"
  proof
    fix og assume "og \<in> set ?os"
    then obtain a b c where og: "og = (a, b, c)" "a \<in> set ?xs" "b \<in> set ?ys" "c \<in> set ?zs"
      using setos by auto
    have "a \<le> v1 - p1" "b \<le> v2 - p2" "c \<le> v3 - p3"
      using og origins_le by blast+
    then show "le_shape (add_shape og patch) volume"
      using le by (auto simp add: le_shape_def add_shape_def og v p)
  qed
  have cover: "\<forall>x. lt_shape x volume \<longrightarrow> (\<exists>og\<in>set ?os. in_patch patch og x)"
  proof (intro allI impI)
    fix x :: shape assume lt: "lt_shape x volume"
    obtain x1 x2 x3 where x: "x = (x1, x2, x3)" by (cases x) auto
    have xl: "x1 < v1" "x2 < v2" "x3 < v3" using lt by (simp_all add: lt_shape_def x v)
    obtain a where a: "a \<in> set ?xs" "a \<le> x1" "x1 < a + p1"
      using axis_cover[OF le(1) pos(1) sp(1) xl(1)] by blast
    obtain b where b: "b \<in> set ?ys" "b \<le> x2" "x2 < b + p2"
      using axis_cover[OF le(2) pos(2) sp(2) xl(2)] by blast
    obtain c where c: "c \<in> set ?zs" "c \<le> x3" "x3 < c + p3"
      using axis_cover[OF le(3) pos(3) sp(3) xl(3)] by blast
    have "(a, b, c) \<in> set ?os" using a(1) b(1) c(1) setos by blast
    moreover have "in_patch patch (a, b, c) x"
      using a b c by (simp add: in_patch_def le_shape_def lt_shape_def add_shape_def x p)
    ultimately show "\<exists>og\<in>set ?os. in_patch patch og x" by blast
  qed
  show ?thesis
    using ax po setos inside cover axis_spec_origins[OF pos(1), of v1 p1]
      axis_spec_origins[OF pos(2), of v2 p2] axis_spec_origins[OF pos(3), of v3 p3]
    by (simp add: v p s)
qed

theorem sliding_window_coverage_witness:
  "patch_origins (5, 4, 4) (4, 4, 4) (3, 2, 2) = Inr [(0, 0, 0), (1, 0, 0)] \<and>
   axis_origins 5 4 3 = Inr [0, 1] \<and>
   (\<exists>og\<in>set [(0, 0, 0), (1, 0, 0)]. in_patch (4, 4, 4) og (4, 3, 3))"
proof -
  have h1: "le_shape (4, 4, 4) (5, 4, 4)" by (simp add: le_shape_def)
  have h2: "lt_shape (0, 0, 0) (3, 2, 2)" by (simp add: lt_shape_def)
  have h3: "le_shape (3, 2, 2) (4, 4, 4)" by (simp add: le_shape_def)
  have e1: "patch_origins (5, 4, 4) (4, 4, 4) (3, 2, 2) = Inr [(0, 0, 0), (1, 0, 0)]"
    by code_simp
  have e2: "axis_origins 5 4 3 = Inr [0, 1]" by code_simp
  have e3: "lt_shape (4, 3, 3) (5, 4, 4)" by (simp add: lt_shape_def)
  from sliding_window_coverage[OF h1 h2 h3] e1 e3
  have "\<exists>og\<in>set [(0, 0, 0), (1, 0, 0)]. in_patch (4, 4, 4) og (4, 3, 3)"
    by auto
  then show ?thesis using e1 e2 by simp
qed

subsection \<open>The checkpoint manager\<close>

text \<open>
  C3. Every call of \<^verbatim>\<open>update\<close> persists the snapshot at \<open>last_path\<close>; it persists the
  same snapshot at \<open>best_path\<close> and sets \<open>best_loss\<close> to the current loss if the
  current loss is strictly less than the best loss, and otherwise leaves \<open>best_loss\<close>
  and the content of \<open>best_path\<close> as they were; a loss equal to the stored best writes
  no new best; no other path is written; and the best loss of a fold starts at
  +infinity.
\<close>

theorem checkpoint_update_strict:
  "snd (Checkpoints_update ck fs m l) (last_path ck) = Some m \<and>
   (loss_lt l (best_loss ck) \<longrightarrow>
      snd (Checkpoints_update ck fs m l) (best_path ck) = Some m \<and>
      best_loss (fst (Checkpoints_update ck fs m l)) = Some l) \<and>
   (\<not> loss_lt l (best_loss ck) \<longrightarrow>
      fst (Checkpoints_update ck fs m l) = ck \<and>
      (best_path ck \<noteq> last_path ck \<longrightarrow>
         snd (Checkpoints_update ck fs m l) (best_path ck) = fs (best_path ck))) \<and>
   (best_loss ck = Some l \<longrightarrow> Checkpoints_update ck fs m l = (ck, fs(last_path ck \<mapsto> m))) \<and>
   (\<forall>p. p \<noteq> last_path ck \<and> p \<noteq> best_path ck \<longrightarrow>
      snd (Checkpoints_update ck fs m l) p = fs p) \<and>
   best_path (fst (Checkpoints_update ck fs m l)) = best_path ck \<and>
   last_path (fst (Checkpoints_update ck fs m l)) = last_path ck \<and>
   best_loss (checkpoint (fold_init cfg c fold_id rt)) = None \<and>
   loss_lt l None"
  by (simp add: Checkpoints_update_def Let_def loss_lt_def fold_init_def Checkpoints_def)

theorem checkpoint_update_strict_witness:
  "Checkpoints_update (Checkpoints ''b'' ''l'' (Some (1 / 2))) [''b'' \<mapsto> 1, ''l'' \<mapsto> 1] (2::nat) (1 / 2) =
     (Checkpoints ''b'' ''l'' (Some (1 / 2)), [''b'' \<mapsto> 1, ''l'' \<mapsto> 2]) \<and>
   snd (Checkpoints_update (Checkpoints ''b'' ''l'' (Some (1 / 2))) [''b'' \<mapsto> 1, ''l'' \<mapsto> 1] (2::nat) (2 / 5)) ''b''
     = Some 2"
proof -
  let ?ck = "Checkpoints ''b'' ''l'' (Some (1 / 2))"
  let ?fs = "[''b'' \<mapsto> 1, ''l'' \<mapsto> (1::nat)]"
  have tie: "best_loss ?ck = Some (1 / 2)" by (simp add: Checkpoints_def)
  have lt: "loss_lt (2 / 5) (best_loss ?ck)" by (simp add: Checkpoints_def loss_lt_def)
  have l: "last_path ?ck = ''l''" by (simp add: Checkpoints_def)
  have b: "best_path ?ck = ''b''" by (simp add: Checkpoints_def)
  have u: "?fs(''l'' \<mapsto> 2) = [''b'' \<mapsto> 1, ''l'' \<mapsto> 2]" by simp
  from checkpoint_update_strict[of ?ck ?fs 2 "1 / 2"] tie
  have 1: "Checkpoints_update ?ck ?fs 2 (1 / 2) = (?ck, ?fs(last_path ?ck \<mapsto> 2))" by blast
  from checkpoint_update_strict[of ?ck ?fs 2 "2 / 5"] lt
  have 2: "snd (Checkpoints_update ?ck ?fs 2 (2 / 5)) (best_path ?ck) = Some 2" by blast
  show ?thesis using 1 2 l b u by simp
qed

subsection \<open>Evaluation of an empty dataframe\<close>

text \<open>
  C10. With an empty dataframe the evaluation loop runs no case, nothing is appended to
  the results, and when the model loads and one of the two temporary files does not
  exist, \<^verbatim>\<open>os.remove\<close> raises \<^verbatim>\<open>FileNotFoundError\<close>.
\<close>

theorem predict_empty_df_raises:
  assumes "models rt model_path = Some m"
    and "pred_temp_filename cfg \<notin> files rt \<or> mask_temp_filename cfg \<notin> files rt"
  shows "\<exists>rt'. predict_and_evaluate_val cfg model_path [] ds rt = Inl (FileNotFoundError, rt') \<and>
               results_df rt' = results_df rt \<and>
               files rt' \<subseteq> files rt \<and>
               log rt' = log rt @ [LoadModel model_path m]"
  using assms by (auto simp add: predict_and_evaluate_val_def Let_def)

theorem predict_empty_df_raises_witness:
  "\<exists>rt'. predict_and_evaluate_val tiny_config ''m'' [] [(rgb_tensor 0, rgb_tensor 0)]
            (empty_run\<lparr>models := [''m'' \<mapsto> 7]\<rparr>) = Inl (FileNotFoundError, rt') \<and>
         results_df rt' = []"
proof -
  let ?rt = "empty_run\<lparr>models := [''m'' \<mapsto> 7]\<rparr>"
  have h1: "models ?rt ''m'' = Some 7" by simp
  have h2: "pred_temp_filename tiny_config \<notin> files ?rt \<or> mask_temp_filename tiny_config \<notin> files ?rt"
    by (simp add: empty_run_def)
  have r: "results_df ?rt = []" by (simp add: empty_run_def)
  from predict_empty_df_raises[OF h1 h2, of "[(rgb_tensor 0, rgb_tensor 0)]"] r
  show ?thesis by auto
qed

subsection \<open>Steps of the training loop\<close>

lemma rgb_to_grayscale_rgb: "is_rgb t \<Longrightarrow> rgb_to_grayscale t = Inr (to_gray t)"
  by (simp add: rgb_to_grayscale_def is_rgb_def to_gray_def)

lemma rgb_to_grayscale_Inr: "rgb_to_grayscale t = Inr u \<Longrightarrow> is_rgb t \<and> u = to_gray t"
  by (auto simp add: rgb_to_grayscale_def is_rgb_def to_gray_def split: if_splits)

lemma rgb_to_grayscale_raises: "\<not> is_rgb t \<Longrightarrow> \<exists>e. rgb_to_grayscale t = Inl e"
  by (auto simp add: rgb_to_grayscale_def is_rgb_def)

lemma channels_to_gray: "channels (to_gray t) = 1"
  by (simp add: channels_def to_gray_def)

lemma train_loop_exhausted:
  "loader g = None \<Longrightarrow> train_loop c f tot S loader vals g st = Inr st"
  by (subst train_loop.simps) simp

lemma train_loop_budget:
  "loader g = Some b \<Longrightarrow> is_rgb (fst b) \<Longrightarrow> is_rgb (snd b) \<Longrightarrow> tot \<le> int g \<Longrightarrow>
   train_loop c f tot S loader vals g st = Inr st"
  by (subst train_loop.simps) (simp add: rgb_to_grayscale_rgb)

lemma train_loop_step:
  "loader g = Some b \<Longrightarrow> is_rgb (fst b) \<Longrightarrow> is_rgb (snd b) \<Longrightarrow> int g < tot \<Longrightarrow> S \<noteq> 0 \<Longrightarrow>
   train_loop c f tot S loader vals g st =
   train_loop c f tot S loader vals (Suc g)
     (epoch_step c f S vals g (to_gray (fst b)) (to_gray (snd b)) st)"
  by (subst train_loop.simps) (simp add: rgb_to_grayscale_rgb epoch_step_def Let_def)

lemma trace_train_step [simp]:
  "trace (train_step c f g i m st) = trace st @ [TrainStep f g i m]"
  by (simp add: train_step_def Let_def)

lemma display_fields [simp]:
  "model (display h st) = model st" "checkpoint (display h st) = checkpoint st"
  "current_epoch (display h st) = current_epoch st" "local_step (display h st) = local_step st"
  "saved (display h st) = saved st" "trace (display h st) = trace st"
  by (simp_all add: display_def Let_def)

lemma display_reads:
  "\<forall>a. h a = a \<Longrightarrow> display h st = st"
  by (simp add: display_def)

lemma trace_train_iteration [simp]:
  "trace (train_iteration c f g i m st) = trace st @ [TrainStep f g i m]"
  by (simp add: train_iteration_def Let_def)

lemma val_iteration_fields [simp]:
  "model (val_iteration c f st b) = model st"
  "checkpoint (val_iteration c f st b) = checkpoint st"
  "current_epoch (val_iteration c f st b) = current_epoch st"
  "saved (val_iteration c f st b) = saved st"
  "trace (val_iteration c f st b) = trace st @ [ValStep f (fst b) (snd b)]"
  by (simp_all add: val_iteration_def val_step_def)

lemma trace_val_steps [simp]:
  "trace (foldl (val_iteration c f) st vals) = trace st @ map (\<lambda>b. ValStep f (fst b) (snd b)) vals"
  by (induction vals arbitrary: st) simp_all

lemma model_val_steps [simp]: "model (foldl (val_iteration c f) st vals) = model st"
  by (induction vals arbitrary: st) simp_all

lemma checkpoint_val_steps [simp]: "checkpoint (foldl (val_iteration c f) st vals) = checkpoint st"
  by (induction vals arbitrary: st) simp_all

lemma saved_val_steps [simp]: "saved (foldl (val_iteration c f) st vals) = saved st"
  by (induction vals arbitrary: st) simp_all

lemma current_epoch_val_steps [simp]:
  "current_epoch (foldl (val_iteration c f) st vals) = current_epoch st"
  by (induction vals arbitrary: st) simp_all

lemma val_loss_val_steps:
  assumes "\<forall>a. update_val_bar c a = a"
  shows "val_loss (foldl (val_iteration c f) st vals) =
         foldl (update_state c) (val_loss st) (round_losses c vals (model st))"
proof (induction vals arbitrary: st)
  case Nil
  show ?case by (simp add: round_losses_def)
next
  case (Cons b vals)
  have v: "val_iteration c f st b = val_step c f st b"
    using assms by (simp add: val_iteration_def display_reads)
  have "model (val_step c f st b) = model st" by (simp add: val_step_def)
  then show ?case using Cons[of "val_step c f st b"] v
    by (simp add: val_step_def round_losses_def)
qed

lemma trace_validation:
  "trace (validation c f vals st) =
   trace st @ map (\<lambda>b. ValStep f (fst b) (snd b)) vals @
     [CheckpointUpdate f (model st) (result c (val_loss (foldl (val_iteration c f) st vals))),
      LogsUpdate f (current_epoch st)]"
  by (simp add: validation_def Let_def)

lemma train_steps_append [simp]: "train_steps (xs @ ys) = train_steps xs + train_steps ys"
  by (simp add: train_steps_def)

lemma val_steps_append [simp]: "val_steps (xs @ ys) = val_steps xs + val_steps ys"
  by (simp add: val_steps_def)

lemma val_rounds_append [simp]: "val_rounds (xs @ ys) = val_rounds xs + val_rounds ys"
  by (simp add: val_rounds_def)

lemma counts_val_events:
  "train_steps (map (\<lambda>b. ValStep f (fst b) (snd b)) vals) = 0"
  "val_rounds (map (\<lambda>b. ValStep f (fst b) (snd b)) vals) = 0"
  "val_steps (map (\<lambda>b. ValStep f (fst b) (snd b)) vals) = length vals"
  by (induction vals)
     (simp_all add: train_steps_def val_rounds_def val_steps_def is_train_step_def
        is_checkpoint_update_def is_val_step_def)

lemma counts_epoch_step:
  "train_steps (trace (epoch_step c f S vals g i m st)) = Suc (train_steps (trace st))"
  "val_rounds (trace (epoch_step c f S vals g i m st)) =
     val_rounds (trace st) + (if (int g + 1) mod S = 0 \<and> 0 < g then 1 else 0)"
  "val_steps (trace (epoch_step c f S vals g i m st)) =
     val_steps (trace st) + (if (int g + 1) mod S = 0 \<and> 0 < g then length vals else 0)"
  by (simp_all add: epoch_step_def Let_def trace_validation counts_val_events
        train_steps_def val_rounds_def val_steps_def is_train_step_def
        is_checkpoint_update_def is_val_step_def)

lemma boundary_nat:
  "2 \<le> k \<Longrightarrow> ((int g + 1) mod int k = 0 \<and> 0 < g) = (Suc g mod k = 0)"
proof -
  assume k: "2 \<le> k"
  have "int g + 1 = int (Suc g)" by simp
  then have "(int g + 1) mod int k = int (Suc g mod k)" by (simp only: zmod_int)
  moreover have "Suc g mod k = 0 \<Longrightarrow> 0 < g" using k by (cases g) auto
  ultimately show ?thesis by auto
qed

lemma train_loop_invariant:
  assumes step: "\<And>g b s. loader g = Some b \<Longrightarrow> is_rgb (fst b) \<Longrightarrow> is_rgb (snd b) \<Longrightarrow>
                   int g < tot \<Longrightarrow> I s \<Longrightarrow>
                   I (train_iteration c f g (to_gray (fst b)) (to_gray (snd b)) s)"
    and val: "\<And>s. I s \<Longrightarrow> I (validation c f vals s)"
  shows "n = nat (tot - int g) \<Longrightarrow> I st \<Longrightarrow> I (outcome (train_loop c f tot S loader vals g st))"
proof (induction n arbitrary: g st)
  case 0
  then have le: "tot \<le> int g" by simp
  show ?case using 0(2) le
    by (subst train_loop.simps)
       (simp add: outcome_def split: option.splits sum.splits)
next
  case (Suc n)
  then have lt: "int g < tot" by simp
  show ?case
  proof (cases "loader g")
    case None
    then show ?thesis using Suc(3) by (simp add: train_loop_exhausted outcome_def)
  next
    case (Some b)
    show ?thesis
    proof (cases "is_rgb (fst b) \<and> is_rgb (snd b)")
      case False
      then have "(\<exists>e. rgb_to_grayscale (fst b) = Inl e) \<or>
                 (\<exists>e. rgb_to_grayscale (snd b) = Inl e)"
        using rgb_to_grayscale_raises by blast
      then show ?thesis using Suc(3) Some
        by (subst train_loop.simps)
           (auto simp add: outcome_def split: sum.splits)
    next
      case True
      let ?s1 = "train_iteration c f g (to_gray (fst b)) (to_gray (snd b)) st"
      have I1: "I ?s1" using step[OF Some _ _ lt Suc(3)] True by simp
      show ?thesis
      proof (cases "S = 0")
        case S0: True
        have "train_loop c f tot S loader vals g st = Inl (ZeroDivisionError, ?s1)"
          using Some True lt S0
          by (subst train_loop.simps) (simp add: rgb_to_grayscale_rgb Let_def)
        then show ?thesis using I1 by (simp add: outcome_def)
      next
        case S1: False
        let ?st = "epoch_step c f S vals g (to_gray (fst b)) (to_gray (snd b)) st"
        have eq: "train_loop c f tot S loader vals g st =
                  train_loop c f tot S loader vals (Suc g) ?st"
          using Some True lt S1 by (simp add: train_loop_step)
        have "I ?st" using I1 val[OF I1] by (simp add: epoch_step_def Let_def)
        moreover have "n = nat (tot - int (Suc g))" using Suc(2) by simp
        ultimately show ?thesis using Suc.IH eq by simp
      qed
    qed
  qed
qed

subsection \<open>Completion of the training loop\<close>

lemma train_loop_completes:
  assumes "yields loader T" and "0 < T \<longrightarrow> S \<noteq> 0"
  shows "g \<le> T \<Longrightarrow> n = T - g \<Longrightarrow>
         \<exists>st'. train_loop c f (int T) S loader vals g st = Inr st' \<and>
               train_steps (trace st') = train_steps (trace st) + (T - g)"
proof (induction n arbitrary: g st)
  case 0
  then have g: "g = T" by simp
  show ?case
  proof (cases "loader T")
    case None
    then show ?thesis using g by (simp add: train_loop_exhausted)
  next
    case (Some b)
    then have "is_rgb (fst b) \<and> is_rgb (snd b)" using assms(1) by (auto simp add: yields_def)
    then show ?thesis using g Some by (simp add: train_loop_budget)
  qed
next
  case (Suc n)
  then have g: "g < T" by simp
  have "case loader g of None \<Rightarrow> T \<le> g | Some b \<Rightarrow> is_rgb (fst b) \<and> is_rgb (snd b)"
    using assms(1) g by (simp add: yields_def)
  then obtain b where b: "loader g = Some b" "is_rgb (fst b)" "is_rgb (snd b)"
    using g by (cases "loader g") auto
  have S: "S \<noteq> 0" using assms(2) g by simp
  let ?st = "epoch_step c f S vals g (to_gray (fst b)) (to_gray (snd b)) st"
  have step: "train_loop c f (int T) S loader vals g st =
              train_loop c f (int T) S loader vals (Suc g) ?st"
    using b g S by (simp add: train_loop_step)
  have "Suc g \<le> T" "n = T - Suc g" using g Suc by simp_all
  from Suc.IH[OF this, of ?st] obtain st' where st':
    "train_loop c f (int T) S loader vals (Suc g) ?st = Inr st'"
    "train_steps (trace st') = train_steps (trace ?st) + (T - Suc g)"
    by blast
  have "train_steps (trace st') = train_steps (trace st) + (T - g)"
    using st'(2) g by (simp add: counts_epoch_step)
  then show ?case using step st'(1) by simp
qed

lemma fold_training_completes:
  assumes "yields (train_loader d) (nat (epochs cfg * S))"
  shows "\<exists>st. fold_training cfg c d f S rt = Inr st \<and>
              train_steps (trace st) = nat (epochs cfg * S)"
proof (cases "0 < epochs cfg * S")
  case True
  then have S: "S \<noteq> 0" by auto
  have T: "epochs cfg * S = int (nat (epochs cfg * S))" using True by simp
  have "\<exists>st'. train_loop c f (int (nat (epochs cfg * S))) S (train_loader d) (val_batches d) 0
                 (fold_init cfg c f rt) = Inr st' \<and>
              train_steps (trace st') =
                train_steps (trace (fold_init cfg c f rt)) + (nat (epochs cfg * S) - 0)"
    by (rule train_loop_completes[OF assms _ le0 refl]) (simp add: S)
  then show ?thesis using T
    by (simp add: fold_training_def fold_init_def train_steps_def)
next
  case False
  then have z: "nat (epochs cfg * S) = 0" by simp
  have le: "epochs cfg * S \<le> int 0" using False by simp
  have "fold_training cfg c d f S rt = Inr (fold_init cfg c f rt)"
  proof (cases "train_loader d 0")
    case None
    then show ?thesis by (simp add: fold_training_def train_loop_exhausted)
  next
    case (Some b)
    then have "is_rgb (fst b) \<and> is_rgb (snd b)" using assms z by (auto simp add: yields_def)
    then show ?thesis using Some le by (simp add: fold_training_def train_loop_budget)
  qed
  then show ?thesis using z by (simp add: fold_init_def train_steps_def)
qed

subsection \<open>The step budget\<close>

lemma within_budget_step:
  "int g < tot \<Longrightarrow> \<forall>ev\<in>set (trace s). within_budget tot ev \<Longrightarrow>
   \<forall>ev\<in>set (trace (train_iteration c f g i m s)). within_budget tot ev"
  by (simp add: within_budget_def)

lemma within_budget_validation:
  "\<forall>ev\<in>set (trace s). within_budget tot ev \<Longrightarrow>
   \<forall>ev\<in>set (trace (validation c f vals s)). within_budget tot ev"
  by (auto simp add: trace_validation within_budget_def)

lemma schedule_append [simp]: "schedule (xs @ ys) = schedule xs @ schedule ys"
  by (simp add: schedule_def)

lemma schedule_Nil [simp]: "schedule [] = []"
  by (simp add: schedule_def)

lemma schedule_Cons [simp]: "schedule (ev # evs) = phase_of ev @ schedule evs"
  by (simp add: schedule_def)

lemma schedule_val_events [simp]:
  "schedule (map (\<lambda>b. ValStep f (fst b) (snd b)) vals) = map (\<lambda>b. Val (fst b) (snd b)) vals"
  by (induction vals) simp_all

lemma schedule_epoch_step:
  assumes "2 \<le> k"
  shows "schedule (trace (epoch_step c f (int k) vals g i m st)) =
         schedule (trace st) @ sched k vals g (Suc 0)"
proof (cases "Suc g mod k = 0")
  case True
  then have "(int g + 1) mod int k = 0 \<and> 0 < g" using boundary_nat[OF assms] by simp
  then show ?thesis using True by (simp add: epoch_step_def Let_def trace_validation)
next
  case False
  then have "\<not> ((int g + 1) mod int k = 0 \<and> 0 < g)" using boundary_nat[OF assms] by simp
  then show ?thesis using False by (auto simp add: epoch_step_def Let_def)
qed

lemma sched_append: "sched k vals g (a + b) = sched k vals g a @ sched k vals (g + a) b"
  by (induction a arbitrary: g) simp_all

lemma train_loop_at_budget:
  "tot \<le> int g \<Longrightarrow> outcome (train_loop c f tot S loader vals g st) = st"
  by (subst train_loop.simps) (simp add: outcome_def split: option.splits sum.splits)

lemma train_loop_budgeted:
  assumes "2 \<le> k" and "supplies loader T"
  shows "g \<le> T \<Longrightarrow> n = T - g \<Longrightarrow>
         schedule (trace (outcome (train_loop c f (int T) (int k) loader vals g st))) =
           schedule (trace st) @ sched k vals g (T - g) \<and>
         train_steps (trace (outcome (train_loop c f (int T) (int k) loader vals g st))) =
           train_steps (trace st) + (T - g) \<and>
         val_rounds (trace (outcome (train_loop c f (int T) (int k) loader vals g st))) =
           val_rounds (trace st) + (T div k - g div k) \<and>
         val_steps (trace (outcome (train_loop c f (int T) (int k) loader vals g st))) =
           val_steps (trace st) + (T div k - g div k) * length vals"
proof (induction n arbitrary: g st)
  case 0
  then have g: "g = T" by simp
  then have "outcome (train_loop c f (int T) (int k) loader vals g st) = st"
    by (simp add: train_loop_at_budget)
  then show ?case using g by simp
next
  case (Suc n)
  then have g: "g < T" by simp
  have "case loader g of None \<Rightarrow> False | Some b \<Rightarrow> is_rgb (fst b) \<and> is_rgb (snd b)"
    using assms(2) g by (simp add: supplies_def)
  then obtain b where b: "loader g = Some b" "is_rgb (fst b)" "is_rgb (snd b)"
    by (cases "loader g") auto
  let ?st = "epoch_step c f (int k) vals g (to_gray (fst b)) (to_gray (snd b)) st"
  let ?out = "outcome (train_loop c f (int T) (int k) loader vals (Suc g) ?st)"
  have step: "train_loop c f (int T) (int k) loader vals g st =
              train_loop c f (int T) (int k) loader vals (Suc g) ?st"
    using b g assms(1) by (simp add: train_loop_step)
  have "Suc g \<le> T" "n = T - Suc g" using g Suc by simp_all
  from Suc.IH[OF this, of ?st] have ih:
    "schedule (trace ?out) = schedule (trace ?st) @ sched k vals (Suc g) (T - Suc g)"
    "train_steps (trace ?out) = train_steps (trace ?st) + (T - Suc g)"
    "val_rounds (trace ?out) = val_rounds (trace ?st) + (T div k - Suc g div k)"
    "val_steps (trace ?out) = val_steps (trace ?st) + (T div k - Suc g div k) * length vals"
    by simp_all
  have le: "Suc g div k \<le> T div k" using g by (simp add: div_le_mono)
  have d: "Suc g div k = g div k + (if Suc g mod k = 0 then 1 else 0)"
    by (simp add: div_Suc)
  let ?d = "if Suc g mod k = 0 then 1 else 0 :: nat"
  have split: "T div k - g div k = ?d + (T div k - Suc g div k)"
    using le d by simp
  have Tg: "T - g = Suc 0 + (T - Suc g)" using g by simp
  have es: "schedule (trace ?st) = schedule (trace st) @ sched k vals g (Suc 0)"
    by (rule schedule_epoch_step[OF assms(1)])
  have "sched k vals g (Suc 0 + (T - Suc g)) =
        sched k vals g (Suc 0) @ sched k vals (g + Suc 0) (T - Suc g)"
    by (rule sched_append)
  then have sa: "sched k vals g (T - g) =
        sched k vals g (Suc 0) @ sched k vals (Suc g) (T - Suc g)"
    by (simp only: Tg[symmetric] add_Suc_right add_0_right)
  have sc: "schedule (trace ?out) = schedule (trace st) @ sched k vals g (T - g)"
    by (simp only: ih(1) es sa append_assoc)
  have ts: "train_steps (trace ?out) = train_steps (trace st) + (T - g)"
    using ih(2) g by (simp add: counts_epoch_step)
  have vr: "val_rounds (trace ?out) = val_rounds (trace st) + (T div k - g div k)"
    using ih(3) by (simp add: counts_epoch_step boundary_nat[OF assms(1)] split)
  have "val_steps (trace ?st) = val_steps (trace st) + ?d * length vals"
    by (simp add: counts_epoch_step boundary_nat[OF assms(1)])
  then have vs: "val_steps (trace ?out) = val_steps (trace st) + (T div k - g div k) * length vals"
    using ih(4) by (simp only: split add_mult_distrib add.assoc)
  show ?case unfolding step using sc ts vr vs by simp
qed

lemma sched_inside:
  "j < k \<Longrightarrow> sched k vals (e * k) j = map Train [e * k ..< e * k + j]"
proof (induction j)
  case 0
  show ?case by simp
next
  case (Suc j)
  then have j: "j < k" and sj: "Suc j < k" by simp_all
  have "Suc (e * k + j) mod k = Suc j mod k"
    by (metis add_Suc_right mod_mult_self3)
  then have nb: "Suc (e * k + j) mod k \<noteq> 0" using sj by simp
  have "sched k vals (e * k) (j + Suc 0) =
        sched k vals (e * k) j @ sched k vals (e * k + j) (Suc 0)"
    by (rule sched_append)
  then show ?case using Suc.IH[OF j] nb by simp
qed

lemma sched_epoch:
  assumes "0 < k"
  shows "sched k vals (e * k) k = epoch_schedule k vals e"
proof -
  obtain j where k: "k = Suc j" using assms by (cases k) auto
  have j: "j < k" using k by simp
  have "Suc (e * k + j) = e * k + k" using k by simp
  then have b: "Suc (e * k + j) mod k = 0" by simp
  have "sched k vals (e * k) (j + Suc 0) =
        sched k vals (e * k) j @ sched k vals (e * k + j) (Suc 0)"
    by (rule sched_append)
  then have "sched k vals (e * k) (Suc j) =
        map Train [e * k ..< e * k + j] @ Train (e * k + j) #
          map (\<lambda>b. Val (fst b) (snd b)) vals @ [Update]"
    using sched_inside[OF j, of vals e] b by simp
  moreover have "map Train [e * k ..< e * k + Suc j] =
        map Train [e * k ..< e * k + j] @ [Train (e * k + j)]"
    by simp
  ultimately have "sched k vals (e * k) (Suc j) =
        map Train [e * k ..< e * k + Suc j] @ map (\<lambda>b. Val (fst b) (snd b)) vals @ [Update]"
    by simp
  then show ?thesis unfolding epoch_schedule_def using k by simp
qed

lemma sched_epochs:
  assumes "0 < k"
  shows "sched k vals (e * k) (m * k) = concat (map (epoch_schedule k vals) [e ..< e + m])"
proof (induction m arbitrary: e)
  case 0
  show ?case by simp
next
  case (Suc m)
  have "sched k vals (e * k) (k + m * k) =
        sched k vals (e * k) k @ sched k vals (e * k + k) (m * k)"
    by (rule sched_append)
  moreover have "e * k + k = Suc e * k" by simp
  ultimately have "sched k vals (e * k) (Suc m * k) =
        epoch_schedule k vals e @ concat (map (epoch_schedule k vals) [Suc e ..< Suc e + m])"
    using sched_epoch[OF assms, of vals e] Suc.IH[of "Suc e"] by simp
  moreover have "[e ..< e + Suc m] = e # [Suc e ..< Suc e + m]"
    by (simp add: upt_conv_Cons)
  ultimately show ?case by simp
qed

text \<open>
  C1, amended. With \<open>E \<ge> 0\<close> epochs, at least 2 steps per epoch and a loader whose first
  \<open>E * S\<close> items exist and are convertible, however many more it could yield, the training
  of a fold is exactly \<open>E\<close> epochs, one after the other: in the epoch numbered \<open>e\<close> the \<open>S\<close>
  calls of \<^verbatim>\<open>train_step\<close> numbered from \<open>e * S\<close>, then at the epoch boundary one
  \<^verbatim>\<open>val_step\<close> for each validation batch, in their order, then the update of the
  checkpoints. So there are exactly \<open>E * S\<close> calls of \<^verbatim>\<open>train_step\<close>, all numbered below
  \<open>E * S\<close>, and exactly \<open>E\<close> validation rounds. The loop returns when the item numbered
  \<open>E * S\<close>, which is read and converted before the budget is tested, is missing or
  convertible too.
\<close>

theorem step_budget:
  fixes c :: "'a collab"
  assumes "0 \<le> epochs cfg" and "2 \<le> S"
    and "supplies (train_loader d) (nat (epochs cfg * S))"
  shows "schedule (trace (outcome (fold_training cfg c d f S rt))) =
           run_schedule (nat S) (val_batches d) (nat (epochs cfg)) \<and>
         train_steps (trace (outcome (fold_training cfg c d f S rt))) = nat (epochs cfg * S) \<and>
         val_rounds (trace (outcome (fold_training cfg c d f S rt))) = nat (epochs cfg) \<and>
         val_steps (trace (outcome (fold_training cfg c d f S rt))) =
           nat (epochs cfg) * length (val_batches d) \<and>
         (\<forall>ev\<in>set (trace (outcome (fold_training cfg c d f S rt))).
            within_budget (epochs cfg * S) ev) \<and>
         (yields (train_loader d) (nat (epochs cfg * S)) \<longrightarrow>
            (\<exists>st. fold_training cfg c d f S rt = Inr st))"
proof -
  define e where "e = nat (epochs cfg)"
  define k where "k = nat S"
  have e: "epochs cfg = int e" using assms(1) by (simp add: e_def)
  have k: "S = int k" "2 \<le> k" using assms(2) by (simp_all add: k_def)
  have k0: "0 < k" using k(2) by simp
  have T: "epochs cfg * S = int (e * k)" by (simp add: e k)
  have nT: "nat (epochs cfg * S) = e * k" by (simp only: T nat_int)
  have nE: "nat (epochs cfg) = e" by (simp add: e)
  have nS: "nat S = k" by (simp add: k)
  from nT have y: "supplies (train_loader d) (e * k)" using assms(3) by simp
  let ?st0 = "fold_init cfg c f rt"
  let ?out = "outcome (train_loop c f (int (e * k)) (int k) (train_loader d) (val_batches d) 0
                ?st0)"
  have ft: "outcome (fold_training cfg c d f S rt) = ?out"
    by (simp add: fold_training_def e k)
  have t0: "trace ?st0 = []" by (simp add: fold_init_def)
  have z: "train_steps (trace ?st0) = 0" "val_rounds (trace ?st0) = 0"
    "val_steps (trace ?st0) = 0" "schedule (trace ?st0) = []"
    by (simp_all add: t0 train_steps_def val_rounds_def val_steps_def)
  have b: "schedule (trace ?out) = schedule (trace ?st0) @ sched k (val_batches d) 0 (e * k - 0)"
    "train_steps (trace ?out) = train_steps (trace ?st0) + (e * k - 0)"
    "val_rounds (trace ?out) = val_rounds (trace ?st0) + ((e * k) div k - 0 div k)"
    "val_steps (trace ?out) =
       val_steps (trace ?st0) + ((e * k) div k - 0 div k) * length (val_batches d)"
    using train_loop_budgeted[OF k(2) y le0 refl, of c f "val_batches d" ?st0] by simp_all
  have "sched k (val_batches d) (0 * k) (e * k) =
        concat (map (epoch_schedule k (val_batches d)) [0 ..< 0 + e])"
    by (rule sched_epochs[OF k0])
  then have c0: "schedule (trace ?out) = run_schedule k (val_batches d) e"
    using b(1) z(4) by (simp add: run_schedule_def)
  have c1: "train_steps (trace ?out) = e * k" using b(2) z by simp
  have c2: "val_rounds (trace ?out) = e" using b(3) z k0 by simp
  have c3: "val_steps (trace ?out) = e * length (val_batches d)" using b(4) z k0 by simp
  let ?I = "\<lambda>s :: 'a fold_state. \<forall>ev\<in>set (trace s). within_budget (int (e * k)) ev"
  have wb: "?I ?out"
  proof (rule train_loop_invariant[where I = ?I])
    fix g b s
    assume "int g < int (e * k)" and "?I s"
    then show "?I (train_iteration c f g (to_gray (fst b)) (to_gray (snd b)) s)"
      by (rule within_budget_step)
  next
    fix s assume "?I s"
    then show "?I (validation c f (val_batches d) s)" by (rule within_budget_validation)
  next
    show "nat (int (e * k) - int 0) = nat (int (e * k) - int 0)" by (rule refl)
  next
    show "?I ?st0" by (simp add: t0)
  qed
  have r: "yields (train_loader d) (nat (epochs cfg * S)) \<longrightarrow>
            (\<exists>st. fold_training cfg c d f S rt = Inr st)"
    using fold_training_completes by blast
  show ?thesis unfolding ft nT nE nS T nat_int using c0 c1 c2 c3 wb r[unfolded nT] by blast
qed

theorem step_budget_witness:
  "schedule (trace (outcome (fold_training tiny_config counting endless 0 2 empty_run))) =
     [Train 0, Train 1, Val (rgb_tensor 0) (rgb_tensor 0), Update,
      Train 2, Train 3, Val (rgb_tensor 0) (rgb_tensor 0), Update] \<and>
   train_steps (trace (outcome (fold_training tiny_config counting endless 0 2 empty_run))) = 4 \<and>
   val_rounds (trace (outcome (fold_training tiny_config counting endless 0 2 empty_run))) = 2 \<and>
   (\<exists>st. fold_training tiny_config counting endless 0 2 empty_run = Inr st)"
proof -
  have h1: "0 \<le> epochs tiny_config" by (simp add: tiny_config_def)
  have h2: "(2::int) \<le> 2" by simp
  have h3: "supplies (train_loader endless) (nat (epochs tiny_config * 2))"
    by (simp add: supplies_def endless_def rgb_loader_def rgb_tensor_def is_rgb_def)
  have h4: "yields (train_loader endless) (nat (epochs tiny_config * 2))"
    by (simp add: yields_def endless_def rgb_loader_def rgb_tensor_def is_rgb_def)
  have e: "nat (epochs tiny_config * 2) = 4" "nat (epochs tiny_config) = 2"
    "val_batches endless = [(rgb_tensor 0, rgb_tensor 0)]"
    by (simp_all add: tiny_config_def endless_def)
  have r: "run_schedule (nat 2) [(rgb_tensor 0, rgb_tensor 0)] 2 =
     [Train 0, Train 1, Val (rgb_tensor 0) (rgb_tensor 0), Update,
      Train 2, Train 3, Val (rgb_tensor 0) (rgb_tensor 0), Update]"
    by (simp add: run_schedule_def epoch_schedule_def upt_rec numeral_2_eq_2)
  from step_budget[OF h1 h2 h3, of counting 0 empty_run] h4
  show ?thesis unfolding e r by simp
qed

text \<open>
  With 2 epochs of 1 step each, the test \<^verbatim>\<open>global_step > 0\<close> skips the validation at the
  first epoch boundary: 2 training steps and 1 validation round. With 2 epochs of 0 steps
  each, the budget is 0: no training step and no validation round. With 2 epochs of 2
  steps each and a loader of one-channel images, the first conversion raises: no training
  step.
\<close>

theorem step_budget_counterexample:
  "map_sum fst (\<lambda>st. (train_steps (trace st), val_rounds (trace st)))
     (fold_training tiny_config counting endless 0 1 empty_run) = Inr (2, 1) \<and>
   map_sum fst (\<lambda>st. (train_steps (trace st), val_rounds (trace st)))
     (fold_training tiny_config counting endless 0 0 empty_run) = Inr (0, 0) \<and>
   map_sum (\<lambda>x. (fst x, train_steps (trace (snd x)))) (\<lambda>st. ())
     (fold_training tiny_config counting gray_fold 0 2 empty_run) =
     Inl (InvalidArgumentError, 0) \<and>
   epochs tiny_config = 2"
proof -
  have b: "best_model_path tiny_config 0 = ''out/models/best/T_best_model_split_0''"
    by code_simp
  have l: "last_model_path tiny_config 0 = ''out/models/last/T_last_model_split_0''"
    by code_simp
  have init: "fold_init tiny_config counting 0 empty_run =
      fresh_state\<lparr>checkpoint := Checkpoints ''out/models/best/T_best_model_split_0''
                                  ''out/models/last/T_last_model_split_0'' None\<rparr>"
    by (simp add: fold_init_def fresh_state_def empty_run_def b l counting_def)
  show ?thesis unfolding fold_training_def init by code_simp
qed

subsection \<open>The loss accumulators\<close>


lemma updates_val_events [simp]: "updates (map (\<lambda>b. ValStep f (fst b) (snd b)) vals) = []"
  by (induction vals) simp_all






lemma current_val_loss:
  assumes "\<forall>a. update_val_bar c a = a"
  shows "trace (validation c f vals s) =
     trace s @ map (\<lambda>b. ValStep f (fst b) (snd b)) vals @
       [CheckpointUpdate f (model s)
          (result c (foldl (update_state c) (val_loss s) (round_losses c vals (model s)))),
        LogsUpdate f (current_epoch s)]"
  using assms by (simp add: trace_validation val_loss_val_steps)













subsection \<open>Grayscale training inputs\<close>

lemma gray_step_step:
  assumes "loader g = Some b" and "is_rgb (fst b)" and "is_rgb (snd b)"
    and "\<forall>ev\<in>set (trace s). gray_step loader ev"
  shows "\<forall>ev\<in>set (trace (train_iteration c f g (to_gray (fst b)) (to_gray (snd b)) s)).
           gray_step loader ev"
  using assms by (simp add: gray_step_def channels_to_gray rgb_to_grayscale_rgb)

lemma gray_step_validation:
  assumes "\<forall>ev\<in>set (trace s). gray_step loader ev"
  shows "\<forall>ev\<in>set (trace (validation c f vals s)). gray_step loader ev"
  using assms by (auto simp add: trace_validation gray_step_def)

text \<open>
  C8. Whatever the number of channels of the data manifest, with which the model of the
  fold is constructed, every call of \<^verbatim>\<open>train_step\<close> of a fold is given the
  \<^verbatim>\<open>rgb_to_grayscale\<close> conversions of the image and of the mask of the loader's item of
  that step, and both have one channel.
\<close>

theorem trained_on_grayscale:
  fixes c :: "'a collab"
  shows "model (fold_init cfg c f rt) = get_model c (n_channels cfg) \<and>
         (\<forall>ev\<in>set (trace (outcome (fold_training cfg c d f S rt))).
            gray_step (train_loader d) ev)"
proof -
  let ?I = "\<lambda>s :: 'a fold_state. \<forall>ev\<in>set (trace s). gray_step (train_loader d) ev"
  have "?I (outcome (train_loop c f (epochs cfg * S) S (train_loader d) (val_batches d) 0
              (fold_init cfg c f rt)))"
  proof (rule train_loop_invariant[where I = ?I])
    fix g b s
    assume "train_loader d g = Some b" "is_rgb (fst b)" "is_rgb (snd b)" "?I s"
    then show "?I (train_iteration c f g (to_gray (fst b)) (to_gray (snd b)) s)"
      by (rule gray_step_step)
  next
    fix s assume "?I s"
    then show "?I (validation c f (val_batches d) s)" by (rule gray_step_validation)
  next
    show "nat (epochs cfg * S - int 0) = nat (epochs cfg * S - int 0)" by (rule refl)
  next
    show "?I (fold_init cfg c f rt)" by (simp add: fold_init_def)
  qed
  then show ?thesis by (simp add: fold_training_def fold_init_def)
qed

theorem trained_on_grayscale_witness:
  "TrainStep 0 1 (to_gray (rgb_tensor 1)) (to_gray (rgb_tensor 1)) \<in>
     set (trace (outcome (fold_training tiny_config counting endless 0 2 empty_run))) \<and>
   channels (to_gray (rgb_tensor 1)) = 1 \<and> channels (rgb_tensor 1) = 3 \<and>
   n_channels tiny_config = 4"
proof -
  let ?ev = "TrainStep 0 1 (to_gray (rgb_tensor 1)) (to_gray (rgb_tensor 1)) :: nat event"
  have m: "?ev \<in> set (trace (outcome (fold_training tiny_config counting endless 0 2 empty_run)))"
    by code_simp
  from trained_on_grayscale[where cfg = tiny_config and c = counting and f = 0
      and rt = empty_run and d = endless and S = 2] m
  have "gray_step (train_loader endless) ?ev" by blast
  then have "channels (to_gray (rgb_tensor 1)) = 1" by (simp add: gray_step_def)
  moreover have "channels (rgb_tensor 1) = 3" "n_channels tiny_config = 4"
    by (simp_all add: channels_def rgb_tensor_def tiny_config_def)
  ultimately show ?thesis using m by simp
qed

subsection \<open>The best checkpoint of a fold\<close>



lemma best_not_subdir: "best_model_path cfg f @ ''/best/'' \<noteq> best_model_path cfg f"
  by simp









lemma log_evaluate_cases [simp]: "log (foldl (evaluate_case cfg) rt xs) = log rt"
  by (induction xs arbitrary: rt) (simp_all add: evaluate_case_def)

lemma models_evaluate_cases [simp]: "models (foldl (evaluate_case cfg) rt xs) = models rt"
  by (induction xs arbitrary: rt) (simp_all add: evaluate_case_def)

lemma predict_Inr:
  assumes "predict_and_evaluate_val cfg p df ds rt = Inr rt'"
  shows "\<exists>m. models rt p = Some m \<and> log rt' = log rt @ [LoadModel p m] \<and> models rt' = models rt"
  using assms
  by (auto simp add: predict_and_evaluate_val_def Let_def split: option.splits if_splits)




subsection \<open>The lifecycle of a run\<close>

lemma hooks_append [simp]: "hooks (xs @ ys) = hooks xs @ hooks ys"
  by (simp add: hooks_def)

lemma hooks_Nil [simp]: "hooks [] = []"
  by (simp add: hooks_def)

lemma hooks_Cons [simp]: "hooks (ev # evs) = hook_of ev @ hooks evs"
  by (simp add: hooks_def)

lemma hooks_val_events [simp]: "hooks (map (\<lambda>b. ValStep f (fst b) (snd b)) vals) = []"
  by (induction vals) (simp_all add: hooks_def)

lemma boundaries_step:
  assumes "\<exists>n. hooks (trace s) = replicate n (EpochBoundary f)"
  shows "\<exists>n. hooks (trace (train_iteration c f g i m s)) =
             replicate n (EpochBoundary f)"
  using assms by simp

lemma boundaries_validation:
  assumes "\<exists>n. hooks (trace s) = replicate n (EpochBoundary f)"
  shows "\<exists>n. hooks (trace (validation c f vals s)) = replicate n (EpochBoundary f)"
proof -
  obtain n where "hooks (trace s) = replicate n (EpochBoundary f)" using assms by blast
  then have "hooks (trace (validation c f vals s)) = replicate (Suc n) (EpochBoundary f)"
    by (simp add: trace_validation replicate_append_same)
  then show ?thesis by blast
qed

lemma boundaries_training:
  fixes c :: "'a collab"
  shows "\<exists>n. hooks (trace (outcome (fold_training cfg c d f S rt))) =
             replicate n (EpochBoundary f)"
proof -
  let ?I = "\<lambda>s :: 'a fold_state. \<exists>n. hooks (trace s) = replicate n (EpochBoundary f)"
  have "?I (outcome (train_loop c f (epochs cfg * S) S (train_loader d) (val_batches d) 0
              (fold_init cfg c f rt)))"
  proof (rule train_loop_invariant[where I = ?I])
    fix g b s
    assume "?I s"
    then show "?I (train_iteration c f g (to_gray (fst b)) (to_gray (snd b)) s)"
      by (rule boundaries_step)
  next
    fix s assume "?I s"
    then show "?I (validation c f (val_batches d) s)" by (rule boundaries_validation)
  next
    show "nat (epochs cfg * S - int 0) = nat (epochs cfg * S - int 0)" by (rule refl)
  next
    show "?I (fold_init cfg c f rt)" by (simp add: fold_init_def)
  qed
  then show ?thesis by (simp add: fold_training_def)
qed

lemma fold_finish_hooks:
  assumes "fold_finish cfg c d f st rt = Inr rt'"
  shows "hooks (log rt') = hooks (log rt) @ hooks (trace st) @ fold_hooks cfg f"
proof -
  let ?bp = "best_model_path cfg f"
  from assms obtain v rt4 where
    p: "predict_and_evaluate_val cfg ?bp (test_df d) (test_loader d)
          (rt\<lparr>learning_rate := Some v, models := saved st, log := log rt @ trace st,
                k_metrics := k_metrics rt @ [(f, v)],
              log := (log rt @ trace st) @ [OnEpochEnd f v],
              models := save_last_model (saved st) (model st) (?bp @ ''/best/''),
              log := ((log rt @ trace st) @ [OnEpochEnd f v]) @
                       [SaveLastModel f (?bp @ ''/best/'')]\<rparr>) = Inr rt4"
    and r: "rt' = rt4\<lparr>log := log rt4 @ [OnKFoldEnd f]\<rparr>"
    by (auto simp add: fold_finish_def Let_def split: option.splits sum.splits if_splits)
  from predict_Inr[OF p] obtain m where
    "log rt4 = (((log rt @ trace st) @ [OnEpochEnd f v]) @
                       [SaveLastModel f (?bp @ ''/best/'')]) @ [LoadModel ?bp m]"
    by auto
  then show ?thesis using r by (simp add: fold_hooks_def)
qed

lemma train_fold_hooks:
  assumes "train_fold cfg c splits f rt = Inr rt'"
  shows "\<exists>n. hooks (log rt') = hooks (log rt) @ replicate n (EpochBoundary f) @ fold_hooks cfg f"
proof -
  let ?d = "splits ! f"
  from assms obtain S st where
    t: "fold_training cfg c ?d f S (rt\<lparr>args_steps_per_epoch := Some S\<rparr>) = Inr st"
    and fin: "fold_finish cfg c ?d f st (rt\<lparr>args_steps_per_epoch := Some S\<rparr>) = Inr rt'"
    by (auto simp add: train_fold_def Let_def split: if_splits sum.splits)
  obtain n where "hooks (trace (outcome (fold_training cfg c ?d f S
                    (rt\<lparr>args_steps_per_epoch := Some S\<rparr>)))) = replicate n (EpochBoundary f)"
    using boundaries_training by blast
  then have "hooks (trace st) = replicate n (EpochBoundary f)" using t by (simp add: outcome_def)
  then show ?thesis using fold_finish_hooks[OF fin] by auto
qed

lemma run_folds_hooks:
  "run_folds cfg c splits fs rt = Inr rt' \<Longrightarrow>
   \<exists>ns. length ns = length fs \<and>
        hooks (log rt') =
          hooks (log rt) @
          concat (map2 (\<lambda>f n. replicate n (EpochBoundary f) @ fold_hooks cfg f) fs ns)"
proof (induction fs arbitrary: rt)
  case Nil
  then show ?case by simp
next
  case (Cons f fs)
  then obtain rt1 where 1: "train_fold cfg c splits f rt = Inr rt1"
    and 2: "run_folds cfg c splits fs rt1 = Inr rt'"
    by (auto split: sum.splits)
  obtain n where n: "hooks (log rt1) =
      hooks (log rt) @ replicate n (EpochBoundary f) @ fold_hooks cfg f"
    using train_fold_hooks[OF 1] by blast
  obtain ns where ns: "length ns = length fs"
    "hooks (log rt') = hooks (log rt1) @
       concat (map2 (\<lambda>f n. replicate n (EpochBoundary f) @ fold_hooks cfg f) fs ns)"
    using Cons.IH[OF 2] by blast
  show ?case using n ns by (intro exI[of _ "n # ns"]) simp
qed

text \<open>
  C5, amended. In a run that completes, each requested fold, in order, has its epoch
  boundaries, then one call of \<^verbatim>\<open>on_epoch_end\<close> after the training loop of the fold,
  then the loading of the best model for the test evaluation, then one call of
  \<^verbatim>\<open>on_kFold_end\<close>; one call of \<^verbatim>\<open>on_training_end\<close> follows the last fold.
\<close>

theorem lifecycle_hooks:
  assumes "train cfg c splits rt = Inr rt'"
  shows "\<exists>ns. length ns = length (folds cfg) \<and>
              hooks (log rt') =
                hooks (log rt) @
                concat (map2 (\<lambda>f n. replicate n (EpochBoundary f) @ fold_hooks cfg f)
                          (folds cfg) ns) @
                [TrainingEnd]"
proof -
  from assms obtain rt1 where
    1: "run_folds cfg c splits (folds cfg) (rt\<lparr>k_metrics := [], learning_rate := None\<rparr>) = Inr rt1"
    and 2: "rt' = rt1\<lparr>log := log rt1 @ [OnTrainingEnd]\<rparr>"
    by (auto simp add: train_def split: sum.splits)
  from run_folds_hooks[OF 1] obtain ns where "length ns = length (folds cfg)"
    "hooks (log rt1) = hooks (log (rt\<lparr>k_metrics := [], learning_rate := None\<rparr>)) @
       concat (map2 (\<lambda>f n. replicate n (EpochBoundary f) @ fold_hooks cfg f) (folds cfg) ns)"
    by blast
  then show ?thesis using 2 by (intro exI[of _ ns]) simp
qed

theorem lifecycle_hooks_witness:
  "\<exists>rt'. train tiny_config counting [endless] configured_run = Inr rt' \<and>
         hooks (log rt') =
           [EpochBoundary 0, EpochBoundary 0, EpochEnd 0,
            Evaluation ''out/models/best/T_best_model_split_0'', KFoldEnd 0, TrainingEnd] \<and>
         (\<exists>ns. length ns = length (folds tiny_config) \<and>
               hooks (log rt') =
                 hooks (log configured_run) @
                 concat (map2 (\<lambda>f n. replicate n (EpochBoundary f) @ fold_hooks tiny_config f)
                           (folds tiny_config) ns) @
                 [TrainingEnd])"
proof -
  have e: "case train tiny_config counting [endless] configured_run of
             Inl x \<Rightarrow> False
           | Inr rt' \<Rightarrow> hooks (log rt') =
               [EpochBoundary 0, EpochBoundary 0, EpochEnd 0,
                Evaluation ''out/models/best/T_best_model_split_0'', KFoldEnd 0, TrainingEnd]"
    by code_simp
  then obtain rt' where rt': "train tiny_config counting [endless] configured_run = Inr rt'"
    "hooks (log rt') =
       [EpochBoundary 0, EpochBoundary 0, EpochEnd 0,
        Evaluation ''out/models/best/T_best_model_split_0'', KFoldEnd 0, TrainingEnd]"
    by (cases "train tiny_config counting [endless] configured_run") auto
  from lifecycle_hooks[OF rt'(1)] rt' show ?thesis by blast
qed

text \<open>
  A fold of 2 epochs has two epoch boundaries, and \<^verbatim>\<open>on_epoch_end\<close> is called once,
  after both.
\<close>

theorem lifecycle_hooks_counterexample:
  "map_sum fst (\<lambda>rt'. hooks (log rt')) (train tiny_config counting [endless] configured_run) =
     Inr [EpochBoundary 0, EpochBoundary 0, EpochEnd 0,
          Evaluation ''out/models/best/T_best_model_split_0'', KFoldEnd 0, TrainingEnd] \<and>
   epochs tiny_config = 2"
  by code_simp

subsection \<open>An optimizer other than adam\<close>

lemma fold_training_run_time:
  "models rt = models rt' \<Longrightarrow> fold_training cfg c d f S rt = fold_training cfg c d f S rt'"
  by (simp add: fold_training_def fold_init_def)

text \<open>
  C9. When the optimizer is not \<^verbatim>\<open>'adam'\<close>, \<^verbatim>\<open>learning_rate\<close> is unbound at the end of
  the first fold: the training loop of that fold returns after all its steps, and the
  run then raises \<^verbatim>\<open>NameError\<close>, before any call of \<^verbatim>\<open>on_epoch_end\<close>, any test
  evaluation and any call of \<^verbatim>\<open>on_kFold_end\<close>.
\<close>

theorem unbound_learning_rate:
  assumes "optimizer cfg \<noteq> ''adam''" and "folds cfg = f # rest" and "f < length splits"
    and "fold_steps cfg (splits ! f) rt = Inr S"
    and "yields (train_loader (splits ! f)) (nat (epochs cfg * S))"
  shows "\<exists>rt' st n. fold_training cfg c (splits ! f) f S rt = Inr st \<and>
           train_steps (trace st) = nat (epochs cfg * S) \<and>
           train cfg c splits rt = Inl (NameError, rt') \<and>
           learning_rate rt' = None \<and>
           log rt' = log rt @ trace st \<and>
           hooks (log rt') = hooks (log rt) @ replicate n (EpochBoundary f)"
proof -
  let ?d = "splits ! f"
  let ?rt0 = "rt\<lparr>k_metrics := [], learning_rate := None\<rparr>"
  let ?rt1 = "?rt0\<lparr>args_steps_per_epoch := Some S\<rparr>"
  obtain st where st: "fold_training cfg c ?d f S rt = Inr st"
    "train_steps (trace st) = nat (epochs cfg * S)"
    using fold_training_completes[OF assms(5)] by blast
  have st1: "fold_training cfg c ?d f S ?rt1 = Inr st"
    using st(1) fold_training_run_time[of ?rt1 rt] by simp
  have fs: "fold_steps cfg ?d ?rt0 = Inr S" using assms(4) by (simp add: fold_steps_def)
  let ?rt' = "?rt1\<lparr>learning_rate := None, models := saved st, log := log ?rt1 @ trace st\<rparr>"
  have fin: "fold_finish cfg c ?d f st ?rt1 = Inl (NameError, ?rt')"
    using assms(1) by (simp add: fold_finish_def Let_def)
  have "train_fold cfg c splits f ?rt0 = Inl (NameError, ?rt')"
    using assms(3) fs st1 fin by (simp add: train_fold_def Let_def)
  then have tr: "train cfg c splits rt = Inl (NameError, ?rt')"
    using assms(2) by (simp add: train_def)
  obtain n where "hooks (trace (outcome (fold_training cfg c ?d f S rt))) =
                    replicate n (EpochBoundary f)"
    using boundaries_training by blast
  then have h: "hooks (trace st) = replicate n (EpochBoundary f)"
    using st(1) by (simp add: outcome_def)
  have "learning_rate ?rt' = None" "log ?rt' = log rt @ trace st"
    "hooks (log ?rt') = hooks (log rt) @ replicate n (EpochBoundary f)"
    using h by simp_all
  then show ?thesis using st tr by blast
qed

theorem unbound_learning_rate_witness:
  "\<exists>rt' st n. fold_training (tiny_config\<lparr>optimizer := ''sgd''\<rparr>) counting endless 0 2
                 configured_run = Inr st \<and>
      train_steps (trace st) = 4 \<and>
      train (tiny_config\<lparr>optimizer := ''sgd''\<rparr>) counting [endless] configured_run =
        Inl (NameError, rt') \<and>
      hooks (log rt') = replicate n (EpochBoundary 0)"
proof -
  let ?cfg = "tiny_config\<lparr>optimizer := ''sgd''\<rparr>"
  have h1: "optimizer ?cfg \<noteq> ''adam''" by simp
  have h2: "folds ?cfg = 0 # []" by (simp add: tiny_config_def)
  have h3: "0 < length [endless]" by simp
  have h4: "fold_steps ?cfg ([endless] ! 0) configured_run = Inr 2"
    by (simp add: fold_steps_def configured_run_def)
  have h5: "yields (train_loader ([endless] ! 0)) (nat (epochs ?cfg * 2))"
    by (simp add: yields_def endless_def rgb_loader_def rgb_tensor_def is_rgb_def)
  have e: "nat (epochs ?cfg * 2) = 4" "log configured_run = []"
    by (simp_all add: tiny_config_def configured_run_def empty_run_def)
  from unbound_learning_rate[OF h1 h2 h3 h4 h5, of counting]
  show ?thesis unfolding e by (simp add: hooks_def) blast
qed

subsection \<open>What a fold takes over from the folds before it\<close>

lemma forget_idem [simp]: "forget (forget s) = forget s"
  by (simp add: forget_def)


lemma forget_val_steps:
  "forget (foldl (val_iteration c f) s vals) = foldl (val_iteration c f) (forget s) vals"
proof (induction vals arbitrary: s)
  case Nil
  show ?case by simp
next
  case (Cons b vals)
  have "forget (val_iteration c f s b) = val_iteration c f (forget s) b"
    by (simp add: forget_def val_iteration_def display_def val_step_def Let_def)
  then show ?case using Cons[of "val_iteration c f s b"] by simp
qed


lemma forget_fields [simp]:
  "model (forget s) = model s" "train_loss (forget s) = train_loss s"
  "val_loss (forget s) = val_loss s" "checkpoint (forget s) = checkpoint s"
  "current_epoch (forget s) = current_epoch s" "local_step (forget s) = local_step s"
  "trace (forget s) = trace s" "saved (forget s) = Map.empty"
  by (simp_all add: forget_def)



lemma val_loss_forget [simp]:
  "val_loss (foldl (val_iteration c f) (forget s) vals) =
   val_loss (foldl (val_iteration c f) s vals)"
  "train_loss (foldl (val_iteration c f) (forget s) vals) =
   train_loss (foldl (val_iteration c f) s vals)"
  by (simp_all add: forget_val_steps[symmetric])






lemma training_of_simps [simp]:
  "training_of (Inr s) = Inr (forget s)" "training_of (Inl (e, s)) = Inl (e, forget s)"
  by (simp_all add: training_of_def)



lemma steps_evaluate_cases [simp]:
  "args_steps_per_epoch (foldl (evaluate_case cfg) rt xs) = args_steps_per_epoch rt"
  by (induction xs arbitrary: rt) (simp_all add: evaluate_case_def)


lemma k_metrics_evaluate_cases [simp]:
  "k_metrics (foldl (evaluate_case cfg) rt xs) = k_metrics rt"
  by (induction xs arbitrary: rt) (simp_all add: evaluate_case_def)







end
